theory Spec2Isabelle
  imports Complex_Main
begin

section \<open>JavaScript values the widget handles\<close>

text \<open>
  The chat widget exists twice in the repository: \<^verbatim>\<open>src/app/static/script.js\<close>, a page-level
  script, and \<^verbatim>\<open>src/unnamed/part_000\<close>, the popup version that adds \<^verbatim>\<open>toggleChat\<close> and an
  animated thinking indicator. The two \<^verbatim>\<open>sendMessage\<close> functions have the same control
  flow and differ in three message strings and in how the indicator is built, so one
  embedding serves both, with the file as a parameter.
\<close>

datatype script = Static_script | Part_000

text \<open>
  A value produced by \<^verbatim>\<open>response.json()\<close>. The members of an object are listed in the
  order of the JSON text; a repeated key keeps its last value, as \<^verbatim>\<open>JSON.parse\<close> does.
  Strings are lists of 8-bit characters: of the 16-bit units of a JavaScript string, those
  below 256.
\<close>

datatype json =
    JNull
  | JBool bool
  | JNumber real
  | JString string
  | JArray "json list"
  | JObject "(string \<times> json) list"

text \<open>An exception object: its \<^verbatim>\<open>name\<close> and its \<^verbatim>\<open>message\<close>.\<close>

datatype js_error = JsError (name: string) (message: string)

text \<open>
  What the script takes from the JavaScript engine and the DOM without defining it: the
  text of a number, and the exceptions of three operations: reading a property of
  \<^verbatim>\<open>null\<close> (a TypeError that names the property), converting an object that yields no
  primitive value (a TypeError), and \<^verbatim>\<open>removeChild\<close> on a node that is not a child (a
  NotFoundError).
\<close>

record engine =
  number_text :: "real \<Rightarrow> string"
  null_read :: "string \<Rightarrow> js_error"
  not_primitive :: js_error
  not_a_child :: js_error

text \<open>ToBoolean, as \<^verbatim>\<open>&&\<close>, \<^verbatim>\<open>||\<close> and \<^verbatim>\<open>if\<close> apply it.\<close>

fun truthy :: "json \<Rightarrow> bool" where
  "truthy JNull = False"
| "truthy (JBool b) = b"
| "truthy (JNumber r) = (r \<noteq> 0)"
| "truthy (JString s) = (s \<noteq> [])"
| "truthy (JArray xs) = True"
| "truthy (JObject kvs) = True"

text \<open>
  Reading the property \<^verbatim>\<open>p\<close> of a value, for the two names the script reads
  (\<^verbatim>\<open>reply\<close> and \<^verbatim>\<open>error\<close>), which no prototype defines: \<open>None\<close> is
  \<^verbatim>\<open>undefined\<close>, and reading a property of \<^verbatim>\<open>null\<close> throws.
\<close>

fun get_prop :: "engine \<Rightarrow> json \<Rightarrow> string \<Rightarrow> js_error + json option" where
  "get_prop eng JNull p = Inl (null_read eng p)"
| "get_prop eng (JObject kvs) p = Inr (map_of (rev kvs) p)"
| "get_prop eng (JBool b) p = Inr None"
| "get_prop eng (JNumber r) p = Inr None"
| "get_prop eng (JString s) p = Inr None"
| "get_prop eng (JArray xs) p = Inr None"

definition truthy_opt :: "json option \<Rightarrow> bool" where
  "truthy_opt v = (case v of None \<Rightarrow> False | Some x \<Rightarrow> truthy x)"

text \<open>
  ToString, as a template literal and the \<^verbatim>\<open>textContent\<close> setter apply it (the script
  converts truthy values only). An array is the texts of its elements joined by commas,
  with \<^verbatim>\<open>null\<close> as the empty text. A parsed object has data members only, so it
  inherits \<^verbatim>\<open>Object.prototype.toString\<close> and is \<^verbatim>\<open>[object Object]\<close>, unless a member
  of its own named \<^verbatim>\<open>toString\<close> hides the inherited method: then no method yields a
  primitive value and the conversion throws.
\<close>

fun to_text :: "engine \<Rightarrow> json \<Rightarrow> js_error + string"
  and join :: "engine \<Rightarrow> json list \<Rightarrow> js_error + string"
where
  "to_text eng (JString s) = Inr s"
| "to_text eng (JBool b) = Inr (if b then ''true'' else ''false'')"
| "to_text eng (JNumber r) = Inr (number_text eng r)"
| "to_text eng JNull = Inr ''null''"
| "to_text eng (JArray xs) = join eng xs"
| "to_text eng (JObject kvs) =
     (if ''toString'' \<in> fst ` set kvs then Inl (not_primitive eng) else Inr ''[object Object]'')"
| "join eng [] = Inr []"
| "join eng (x # xs) =
     (case (if x = JNull then Inr [] else to_text eng x) of
        Inl e \<Rightarrow> Inl e
      | Inr s \<Rightarrow>
          if xs = [] then Inr s
          else (case join eng xs of Inl e \<Rightarrow> Inl e | Inr t \<Rightarrow> Inr (s @ '','' @ t)))"

text \<open>The decimal text of an integer, for \<^verbatim>\<open>${response.status}\<close>.\<close>

function decimal :: "nat \<Rightarrow> string" where
  "decimal n =
     (if n < 10 then [''0123456789'' ! n]
      else decimal (n div 10) @ [''0123456789'' ! (n mod 10)])"
  by pat_completeness auto
termination
  by (relation "measure id") auto

declare decimal.simps [simp del]

text \<open>
  \<^verbatim>\<open>String.prototype.trim\<close> strips white space and line terminators from both ends. Among
  8-bit characters these are TAB, LF, VT, FF, CR, SPACE and NBSP.
\<close>

definition is_ws :: "char \<Rightarrow> bool" where
  "is_ws c = (c \<in> {CHR 0x09, CHR 0x0A, CHR 0x0B, CHR 0x0C, CHR 0x0D, CHR 0x20, CHR 0xA0})"

definition trim :: "string \<Rightarrow> string" where
  "trim s = rev (dropWhile is_ws (rev (dropWhile is_ws s)))"

section \<open>The page: transcript, input field, popup, and the effects in program order\<close>

datatype sender = User | Bot | Error

text \<open>
  A child of \<^verbatim>\<open>#chatbox\<close>: the identity of its DOM node, the sender its class names, and
  what it shows: a paragraph of literal text (\<^verbatim>\<open>textContent\<close>) or the three animated dots
  of \<^verbatim>\<open>addThinkingIndicator\<close>.
\<close>

datatype content = Text string | Dots

record element =
  node :: nat
  sender_class :: sender
  content :: content

record request =
  url :: string
  http_method :: string
  headers :: "(string \<times> string) list"
  body :: json

text \<open>
  A response as the script observes it: \<^verbatim>\<open>status\<close>, \<^verbatim>\<open>statusText\<close>, and how the promise of
  \<^verbatim>\<open>response.json()\<close> settles. \<^verbatim>\<open>response.ok\<close> is true for the statuses 200 to 299.
\<close>

record response =
  status :: nat
  statusText :: string
  json_body :: "js_error + json"

definition ok :: "response \<Rightarrow> bool" where
  "ok r = (200 \<le> status r \<and> status r \<le> 299)"

datatype log_arg = LogValue json | LogError js_error

text \<open>
  Every effect of the script on its surroundings, in the order it happens: the two
  mutations of the chatbox, the assignment to \<^verbatim>\<open>userInput.value\<close>, the \<^verbatim>\<open>fetch\<close> call (its
  body is the value given to \<^verbatim>\<open>JSON.stringify\<close>), \<^verbatim>\<open>console.error\<close>, and the timer that
  will focus the input field.
\<close>

datatype event =
    AppendChild element
  | RemoveChild nat
  | SetValue string
  | Fetch request
  | ConsoleError string log_arg
  | FocusAfter nat

record state =
  chatbox :: "element list"
  userInput :: string
  chatPopup :: "string list"
  next_node :: nat
  trace :: "event list"

text \<open>\<^verbatim>\<open>document.createElement\<close> returns a node that is nowhere in the document yet.\<close>

definition fresh_nodes :: "state \<Rightarrow> bool" where
  "fresh_nodes st = (\<forall>e \<in> set (chatbox st). node e < next_node st)"

text \<open>The page of \<^verbatim>\<open>src/unnamed/part_001\<close> as it is loaded: one greeting, the popup hidden.\<close>

definition initial_state :: state where
  "initial_state =
     \<lparr>chatbox = [\<lparr>node = 0, sender_class = Bot,
                  content = Text ''Hello! How can I help you with entitlements today?''\<rparr>],
      userInput = [],
      chatPopup = [''fixed'', ''bottom-24'', ''right-5'', ''w-80'', ''h-[30rem]'', ''bg-white'',
                   ''rounded-lg'', ''shadow-xl'', ''flex'', ''flex-col'', ''z-40'', ''hidden'',
                   ''animate-fade-in''],
      next_node = 1,
      trace = []\<rparr>"

section \<open>The panel\<close>

datatype panel = Closed | Open

definition panel_state :: "state \<Rightarrow> panel" where
  "panel_state st = (if ''hidden'' \<in> set (chatPopup st) then Closed else Open)"

definition classList_remove :: "string \<Rightarrow> string list \<Rightarrow> string list" where
  "classList_remove t cs = removeAll t cs"

definition classList_add :: "string \<Rightarrow> string list \<Rightarrow> string list" where
  "classList_add t cs = (if t \<in> set cs then cs else cs @ [t])"

definition toggleChat :: "state \<Rightarrow> state" where
  "toggleChat st =
     (if ''hidden'' \<in> set (chatPopup st)
      then st\<lparr>chatPopup := classList_remove ''hidden'' (chatPopup st),
              trace := trace st @ [FocusAfter 100]\<rparr>
      else st\<lparr>chatPopup := classList_add ''hidden'' (chatPopup st)\<rparr>)"

section \<open>The transcript\<close>

definition addMessageToChatbox :: "string \<Rightarrow> sender \<Rightarrow> state \<Rightarrow> state \<times> nat" where
  "addMessageToChatbox msg sender st =
     (let messageElement = \<lparr>node = next_node st, sender_class = sender, content = Text msg\<rparr>
      in (st\<lparr>chatbox := chatbox st @ [messageElement],
              next_node := Suc (next_node st),
              trace := trace st @ [AppendChild messageElement]\<rparr>,
          node messageElement))"

definition addThinkingIndicator :: "state \<Rightarrow> state \<times> nat" where
  "addThinkingIndicator st =
     (let thinkingElement = \<lparr>node = next_node st, sender_class = Bot, content = Dots\<rparr>
      in (st\<lparr>chatbox := chatbox st @ [thinkingElement],
              next_node := Suc (next_node st),
              trace := trace st @ [AppendChild thinkingElement]\<rparr>,
          node thinkingElement))"

definition contains :: "state \<Rightarrow> nat \<Rightarrow> bool" where
  "contains st h = (h \<in> node ` set (chatbox st))"

text \<open>\<^verbatim>\<open>chatbox.removeChild\<close> throws when the node is not a child of the chatbox.\<close>

definition removeChild :: "engine \<Rightarrow> nat \<Rightarrow> state \<Rightarrow> js_error + state" where
  "removeChild eng h st =
     (if h \<in> node ` set (chatbox st)
      then Inr (st\<lparr>chatbox := filter (\<lambda>e. node e \<noteq> h) (chatbox st),
                   trace := trace st @ [RemoveChild h]\<rparr>)
      else Inl (not_a_child eng))"

definition console_error :: "string \<Rightarrow> log_arg \<Rightarrow> state \<Rightarrow> state" where
  "console_error label arg st = st\<lparr>trace := trace st @ [ConsoleError label arg]\<rparr>"


section \<open>sendMessage\<close>

text \<open>The strings in which the two files differ.\<close>

definition api_error_label :: "script \<Rightarrow> string" where
  "api_error_label src =
     (case src of Static_script \<Rightarrow> ''API Error Response:'' | Part_000 \<Rightarrow> ''API Error:'')"

definition invalid_response_message :: "script \<Rightarrow> string" where
  "invalid_response_message src =
     (case src of
        Static_script \<Rightarrow> ''Received an empty or invalid response from the server.''
      | Part_000 \<Rightarrow> ''Received an empty or invalid response.'')"

definition connection_message :: "script \<Rightarrow> js_error \<Rightarrow> string" where
  "connection_message src error =
     (case src of
        Static_script \<Rightarrow>
          ''Network error or failed to connect to the server. ('' @ message error @ '')''
      | Part_000 \<Rightarrow> ''Connection error. Please try again later.'')"

text \<open>
  The indicator: \<^verbatim>\<open>addMessageToChatbox('...', 'bot')\<close> in \<^verbatim>\<open>script.js\<close>,
  \<^verbatim>\<open>addThinkingIndicator()\<close> in \<^verbatim>\<open>part_000\<close>.
\<close>

definition show_thinking :: "script \<Rightarrow> state \<Rightarrow> state \<times> nat" where
  "show_thinking src st =
     (case src of
        Static_script \<Rightarrow> addMessageToChatbox ''...'' Bot st
      | Part_000 \<Rightarrow> addThinkingIndicator st)"

text \<open>\<^verbatim>\<open>if (chatbox.contains(thinking)) { chatbox.removeChild(thinking); }\<close>\<close>

definition remove_thinking :: "engine \<Rightarrow> nat \<Rightarrow> state \<Rightarrow> js_error + state" where
  "remove_thinking eng thinking st =
     (if contains st thinking then removeChild eng thinking st else Inr st)"

text \<open>
  The \<^verbatim>\<open>catch (error)\<close> block. \<open>Inl\<close> is an exception that leaves \<^verbatim>\<open>sendMessage\<close>
  uncaught.
\<close>

definition catch_block :: "script \<Rightarrow> engine \<Rightarrow> nat \<Rightarrow> js_error \<Rightarrow> state \<Rightarrow> js_error + state" where
  "catch_block src eng thinking error st =
     (case remove_thinking eng thinking st of
        Inl e \<Rightarrow> Inl e
      | Inr st1 \<Rightarrow>
          Inr (fst (addMessageToChatbox (connection_message src error) Error
                      (console_error ''Fetch Error:'' (LogError error) st1))))"

text \<open>
  \<^verbatim>\<open>sendMessage\<close> is an \<^verbatim>\<open>async\<close> function with two \<^verbatim>\<open>await\<close>s, so it runs in three
  pieces, and other event handlers may run between them. The first piece runs from the
  call to the dispatch of \<^verbatim>\<open>fetch\<close>; it returns the handle of the indicator when a request
  is in flight, and \<open>None\<close> when the input was empty.
\<close>

definition sendMessage_begin :: "script \<Rightarrow> state \<Rightarrow> state \<times> nat option" where
  "sendMessage_begin src st =
     (let userMessage = trim (userInput st) in
      if userMessage = [] then (st, None)
      else
        let (st1, u) = addMessageToChatbox userMessage User st;
            st2 = st1\<lparr>userInput := [], trace := trace st1 @ [SetValue []]\<rparr>;
            (st3, thinking) = show_thinking src st2;
            st4 = st3\<lparr>trace := trace st3 @
                    [Fetch \<lparr>url = ''/chat'', http_method = ''POST'',
                            headers = [(''Content-Type'', ''application/json'')],
                            body = JObject [(''query'', JString userMessage)]\<rparr>]\<rparr>
        in (st4, Some thinking))"

text \<open>
  The second piece runs when the promise of \<^verbatim>\<open>fetch\<close> settles: rejected with an error (no
  response was received) or fulfilled with a response. With a response, the indicator is
  removed and \<^verbatim>\<open>response.json()\<close> is awaited on both branches of \<^verbatim>\<open>if (!response.ok)\<close>;
  the result \<open>Some response\<close> says so.
\<close>

definition fetch_settled ::
  "script \<Rightarrow> engine \<Rightarrow> nat \<Rightarrow> js_error + response \<Rightarrow> state \<Rightarrow> js_error + state \<times> response option"
where
  "fetch_settled src eng thinking outcome st =
     (case outcome of
        Inl error \<Rightarrow>
          (case catch_block src eng thinking error st of
             Inl e \<Rightarrow> Inl e
           | Inr st1 \<Rightarrow> Inr (st1, None))
      | Inr response \<Rightarrow>
          (case remove_thinking eng thinking st of
             Inl error \<Rightarrow>
               (case catch_block src eng thinking error st of
                  Inl e \<Rightarrow> Inl e
                | Inr st1 \<Rightarrow> Inr (st1, None))
           | Inr st1 \<Rightarrow> Inr (st1, Some response)))"

text \<open>
  \<^verbatim>\<open>await response.json().catch(() => ({ error: `HTTP error! Status: ${response.status}` }))\<close>
\<close>

definition error_data :: "response \<Rightarrow> json" where
  "error_data response =
     (case json_body response of
        Inl e \<Rightarrow>
          JObject [(''error'', JString (''HTTP error! Status: '' @ decimal (status response)))]
      | Inr d \<Rightarrow> d)"

text \<open>
  The third piece runs when the promise of \<^verbatim>\<open>response.json()\<close> settles. On a status that
  is not OK a rejection is replaced, by \<^verbatim>\<open>.catch\<close>, with an object made from the status;
  on an OK status a rejection is thrown at the \<^verbatim>\<open>await\<close> and lands in the \<^verbatim>\<open>catch\<close> block,
  as does every exception of the conversions below.
\<close>

definition json_settled ::
  "script \<Rightarrow> engine \<Rightarrow> nat \<Rightarrow> response \<Rightarrow> state \<Rightarrow> js_error + state"
where
  "json_settled src eng thinking response st =
     (if \<not> ok response then
        let errorData = error_data response;
            st1 = console_error (api_error_label src) (LogValue errorData) st
        in (case get_prop eng errorData ''error'' of
              Inl error \<Rightarrow> catch_block src eng thinking error st1
            | Inr v \<Rightarrow>
                (case (if truthy_opt v then to_text eng (the v)
                       else Inr (statusText response)) of
                   Inl error \<Rightarrow> catch_block src eng thinking error st1
                 | Inr s \<Rightarrow> Inr (fst (addMessageToChatbox (''Error: '' @ s) Error st1))))
      else
        (case json_body response of
           Inl error \<Rightarrow> catch_block src eng thinking error st
         | Inr data \<Rightarrow>
             (case (if truthy data then get_prop eng data ''reply'' else Inr None) of
                Inl error \<Rightarrow> catch_block src eng thinking error st
              | Inr v \<Rightarrow>
                  if truthy_opt v then
                    (case to_text eng (the v) of
                       Inl error \<Rightarrow> catch_block src eng thinking error st
                     | Inr s \<Rightarrow> Inr (fst (addMessageToChatbox s Bot st)))
                  else Inr (fst (addMessageToChatbox (invalid_response_message src) Error st)))))"

text \<open>
  One exchange with nothing else running in between: \<open>outcome\<close> is how the network call
  settles.
\<close>

definition sendMessage :: "script \<Rightarrow> engine \<Rightarrow> js_error + response \<Rightarrow> state \<Rightarrow> js_error + state" where
  "sendMessage src eng outcome st =
     (case sendMessage_begin src st of
        (st1, None) \<Rightarrow> Inr st1
      | (st1, Some thinking) \<Rightarrow>
          (case fetch_settled src eng thinking outcome st1 of
             Inl e \<Rightarrow> Inl e
           | Inr (st2, None) \<Rightarrow> Inr st2
           | Inr (st2, Some response) \<Rightarrow> json_settled src eng thinking response st2))"

text \<open>
  One exchange among others: \<open>others1\<close> is what other event handlers do to the page while
  the call awaits \<^verbatim>\<open>fetch\<close>, \<open>others2\<close> what they do while it awaits
  \<^verbatim>\<open>response.json()\<close>. \<^verbatim>\<open>sendMessage\<close> above is the case where they do nothing.
\<close>

definition sendMessage_among ::
  "script \<Rightarrow> engine \<Rightarrow> js_error + response \<Rightarrow> (state \<Rightarrow> state) \<Rightarrow> (state \<Rightarrow> state) \<Rightarrow> state \<Rightarrow>
   js_error + state"
where
  "sendMessage_among src eng outcome others1 others2 st =
     (case sendMessage_begin src st of
        (st1, None) \<Rightarrow> Inr st1
      | (st1, Some thinking) \<Rightarrow>
          (case fetch_settled src eng thinking outcome (others1 st1) of
             Inl e \<Rightarrow> Inl e
           | Inr (st2, None) \<Rightarrow> Inr st2
           | Inr (st2, Some response) \<Rightarrow>
               json_settled src eng thinking response (others2 st2)))"

section \<open>One exchange, described\<close>

text \<open>
  The entries and the request of the exchange that \<^verbatim>\<open>sendMessage\<close> starts in the state
  \<open>st\<close>: the user's entry takes the next node, the indicator the one after it, and the
  entry that ends the exchange the third.
\<close>

definition user_entry :: "state \<Rightarrow> element" where
  "user_entry st =
     \<lparr>node = next_node st, sender_class = User, content = Text (trim (userInput st))\<rparr>"

definition thinking_entry :: "script \<Rightarrow> state \<Rightarrow> element" where
  "thinking_entry src st =
     \<lparr>node = Suc (next_node st), sender_class = Bot,
      content = (case src of Static_script \<Rightarrow> Text ''...'' | Part_000 \<Rightarrow> Dots)\<rparr>"

definition chat_request :: "state \<Rightarrow> request" where
  "chat_request st =
     \<lparr>url = ''/chat'', http_method = ''POST'', headers = [(''Content-Type'', ''application/json'')],
      body = JObject [(''query'', JString (trim (userInput st)))]\<rparr>"

definition terminal_entry :: "state \<Rightarrow> sender \<Rightarrow> string \<Rightarrow> element" where
  "terminal_entry st sender txt =
     \<lparr>node = next_node st + 2, sender_class = sender, content = Text txt\<rparr>"

text \<open>The events up to the dispatch of the request, and the state at that moment.\<close>

definition dispatch_events :: "script \<Rightarrow> state \<Rightarrow> event list" where
  "dispatch_events src st =
     [AppendChild (user_entry st), SetValue [], AppendChild (thinking_entry src st),
      Fetch (chat_request st)]"

definition dispatched :: "script \<Rightarrow> state \<Rightarrow> state" where
  "dispatched src st =
     st\<lparr>chatbox := chatbox st @ [user_entry st, thinking_entry src st],
        userInput := [],
        next_node := next_node st + 2,
        trace := trace st @ dispatch_events src st\<rparr>"

text \<open>The state once the indicator is gone, after the further events \<open>logged\<close>.\<close>

definition removed :: "script \<Rightarrow> state \<Rightarrow> event list \<Rightarrow> state" where
  "removed src st logged =
     st\<lparr>chatbox := chatbox st @ [user_entry st],
        userInput := [],
        next_node := next_node st + 2,
        trace := trace st @ dispatch_events src st @ [RemoveChild (Suc (next_node st))] @ logged\<rparr>"

text \<open>
  The state at the end of an exchange that logged \<open>logged\<close> and ended with the entry of
  \<open>sender\<close> and text \<open>txt\<close>: the transcript has grown by the user's entry and that entry.
\<close>

definition rendered :: "script \<Rightarrow> state \<Rightarrow> event list \<Rightarrow> sender \<Rightarrow> string \<Rightarrow> state" where
  "rendered src st logged sender txt =
     st\<lparr>chatbox := chatbox st @ [user_entry st, terminal_entry st sender txt],
        userInput := [],
        next_node := next_node st + 3,
        trace := trace st @ dispatch_events src st @ [RemoveChild (Suc (next_node st))] @
                 logged @ [AppendChild (terminal_entry st sender txt)]\<rparr>"

definition console_only :: "event list \<Rightarrow> bool" where
  "console_only evs =
     list_all (\<lambda>ev. case ev of ConsoleError label arg \<Rightarrow> True | _ \<Rightarrow> False) evs"

definition renders :: "script \<Rightarrow> state \<Rightarrow> js_error + state \<Rightarrow> bool" where
  "renders src st x =
     (\<exists>logged sender txt.
        x = Inr (rendered src st logged sender txt) \<and> sender \<noteq> User \<and> console_only logged)"

text \<open>
  The same steps from any state \<open>s\<close>, as they happen when other handlers have run in
  between: the chatbox without the node \<open>h\<close>, the guarded removal, further events in the
  log, and one more entry at the end.
\<close>

definition without :: "nat \<Rightarrow> state \<Rightarrow> state" where
  "without h s =
     s\<lparr>chatbox := filter (\<lambda>e. node e \<noteq> h) (chatbox s), trace := trace s @ [RemoveChild h]\<rparr>"

definition cleared :: "nat \<Rightarrow> state \<Rightarrow> state" where
  "cleared h s = (if contains s h then without h s else s)"

definition with_log :: "event list \<Rightarrow> state \<Rightarrow> state" where
  "with_log evs s = s\<lparr>trace := trace s @ evs\<rparr>"

definition appended :: "state \<Rightarrow> event list \<Rightarrow> sender \<Rightarrow> string \<Rightarrow> state" where
  "appended s logged sender txt =
     s\<lparr>chatbox := chatbox s @ [\<lparr>node = next_node s, sender_class = sender, content = Text txt\<rparr>],
       next_node := Suc (next_node s),
       trace := trace s @ logged @
                [AppendChild \<lparr>node = next_node s, sender_class = sender, content = Text txt\<rparr>]\<rparr>"

text \<open>
  How a piece can end: with one entry appended to \<open>s\<close> after \<^verbatim>\<open>console.error\<close> calls only
  (\<open>appends\<close>); or, when the indicator \<open>h\<close> may still be there, with
  \<^verbatim>\<open>console.error\<close> calls, possibly the guarded removal, further \<^verbatim>\<open>console.error\<close> calls
  and the entry (\<open>settles\<close>).
\<close>

definition appends :: "state \<Rightarrow> js_error + state \<Rightarrow> bool" where
  "appends s x =
     (\<exists>logged sender txt.
        x = Inr (appended s logged sender txt) \<and> sender \<noteq> User \<and> console_only logged)"

definition settles :: "nat \<Rightarrow> state \<Rightarrow> js_error + state \<Rightarrow> bool" where
  "settles h s x =
     (\<exists>pre post sender txt.
        (x = Inr (appended (with_log pre s) post sender txt) \<or>
         x = Inr (appended (cleared h (with_log pre s)) post sender txt)) \<and>
        sender \<noteq> User \<and> console_only pre \<and> console_only post)"

text \<open>The events that the handler \<open>f\<close> adds to the log when it runs in the state \<open>s\<close>.\<close>

definition events_of :: "(state \<Rightarrow> state) \<Rightarrow> state \<Rightarrow> event list \<Rightarrow> bool" where
  "events_of f s evs = (trace (f s) = trace s @ evs)"

text \<open>
  The events of an exchange among others: \<open>evs1\<close> and \<open>evs2\<close> are the events between the
  dispatch and the removal of the indicator, and between the removal and the last entry.
\<close>

definition among_events :: "script \<Rightarrow> state \<Rightarrow> event list \<Rightarrow> event list \<Rightarrow> element \<Rightarrow> event list" where
  "among_events src st evs1 evs2 entry =
     dispatch_events src st @ evs1 @ [RemoveChild (Suc (next_node st))] @ evs2 @
     [AppendChild entry]"

text \<open>
  A handler leaves the exchange with the indicator \<open>h\<close> alone when, from every state in
  which \<open>h\<close> was created before, it keeps the nodes fresh, neither removes nor appends
  \<open>h\<close>, and appends only nodes it has created itself.
\<close>

definition bystander :: "nat \<Rightarrow> (state \<Rightarrow> state) \<Rightarrow> bool" where
  "bystander h f =
     (\<forall>s. fresh_nodes s \<and> h < next_node s \<longrightarrow>
          fresh_nodes (f s) \<and> next_node s \<le> next_node (f s) \<and>
          contains (f s) h = contains s h \<and>
          (\<exists>evs. trace (f s) = trace s @ evs \<and> RemoveChild h \<notin> set evs \<and>
                 (\<forall>e. AppendChild e \<in> set evs \<longrightarrow>
                      next_node s \<le> node e \<and> node e < next_node (f s))))"

text \<open>The nodes in the chatbox after a run of events, from the nodes before it.\<close>

fun children_after :: "nat list \<Rightarrow> event list \<Rightarrow> nat list" where
  "children_after ids [] = ids"
| "children_after ids (AppendChild e # evs) = children_after (ids @ [node e]) evs"
| "children_after ids (RemoveChild h # evs) = children_after (filter (\<lambda>i. i \<noteq> h) ids) evs"
| "children_after ids (SetValue v # evs) = children_after ids evs"
| "children_after ids (Fetch q # evs) = children_after ids evs"
| "children_after ids (ConsoleError label arg # evs) = children_after ids evs"
| "children_after ids (FocusAfter ms # evs) = children_after ids evs"

text \<open>What the user reads in the chatbox after a call: sender and content of each entry.\<close>

definition transcript :: "js_error + state \<Rightarrow> (sender \<times> content) list" where
  "transcript x =
     (case x of Inl e \<Rightarrow> [] | Inr st \<Rightarrow> map (\<lambda>e. (sender_class e, content e)) (chatbox st))"

text \<open>
  An engine for the examples, with the messages of V8 and the text of a number that is a
  natural number.
\<close>

definition sample_engine :: engine where
  "sample_engine =
     \<lparr>number_text = (\<lambda>r. decimal (nat \<lfloor>r\<rfloor>)),
      null_read = (\<lambda>p. JsError ''TypeError''
                     (''Cannot read properties of null (reading '' @ [CHR 0x27] @ p @
                      [CHR 0x27] @ '')'')),
      not_primitive = JsError ''TypeError'' ''Cannot convert object to primitive value'',
      not_a_child = JsError ''NotFoundError''
                      ''The node to be removed is not a child of this node.''\<rparr>"

section \<open>The pieces of sendMessage, one path at a time\<close>

lemma begin_dispatch:
  "trim (userInput st) \<noteq> [] \<Longrightarrow>
   sendMessage_begin src st = (dispatched src st, Some (Suc (next_node st)))"
  by (cases src)
     (simp_all add: sendMessage_begin_def dispatched_def dispatch_events_def
        addMessageToChatbox_def show_thinking_def addThinkingIndicator_def user_entry_def
        thinking_entry_def chat_request_def Let_def)

lemma begin_empty:
  "trim (userInput st) = [] \<Longrightarrow> sendMessage_begin src st = (st, None)"
  by (simp add: sendMessage_begin_def)

lemma filter_fresh:
  "fresh_nodes st \<Longrightarrow> next_node st \<le> h \<Longrightarrow>
   filter (\<lambda>e. node e \<noteq> h) (chatbox st) = chatbox st"
  by (auto simp: fresh_nodes_def filter_id_conv)

lemma remove_thinking_dispatched:
  "fresh_nodes st \<Longrightarrow>
   remove_thinking eng (Suc (next_node st)) (dispatched src st) = Inr (removed src st [])"
  by (simp add: remove_thinking_def contains_def removeChild_def dispatched_def removed_def
        thinking_entry_def user_entry_def filter_fresh)

lemma not_contains_removed:
  "fresh_nodes st \<Longrightarrow> \<not> contains (removed src st logged) (Suc (next_node st))"
  by (auto simp: contains_def removed_def user_entry_def fresh_nodes_def)

lemma remove_thinking_removed:
  "fresh_nodes st \<Longrightarrow>
   remove_thinking eng (Suc (next_node st)) (removed src st logged) =
     Inr (removed src st logged)"
  by (simp add: remove_thinking_def not_contains_removed)

lemma console_error_removed:
  "console_error label arg (removed src st logged) =
     removed src st (logged @ [ConsoleError label arg])"
  by (simp add: console_error_def removed_def)

lemma add_after_removed:
  "fst (addMessageToChatbox txt sender (removed src st logged)) =
     rendered src st logged sender txt"
  by (simp add: addMessageToChatbox_def removed_def rendered_def terminal_entry_def Let_def)

lemma catch_after_removed:
  "fresh_nodes st \<Longrightarrow>
   catch_block src eng (Suc (next_node st)) e (removed src st logged) =
     Inr (rendered src st (logged @ [ConsoleError ''Fetch Error:'' (LogError e)]) Error
            (connection_message src e))"
  by (simp add: catch_block_def remove_thinking_removed console_error_removed
        add_after_removed)

lemma catch_dispatched:
  "fresh_nodes st \<Longrightarrow>
   catch_block src eng (Suc (next_node st)) e (dispatched src st) =
     Inr (rendered src st [ConsoleError ''Fetch Error:'' (LogError e)] Error
            (connection_message src e))"
  by (simp add: catch_block_def remove_thinking_dispatched console_error_removed
        add_after_removed)

lemma fetch_settled_rejected:
  "fresh_nodes st \<Longrightarrow>
   fetch_settled src eng (Suc (next_node st)) (Inl e) (dispatched src st) =
     Inr (rendered src st [ConsoleError ''Fetch Error:'' (LogError e)] Error
            (connection_message src e), None)"
  by (simp add: fetch_settled_def catch_dispatched)

lemma fetch_settled_response:
  "fresh_nodes st \<Longrightarrow>
   fetch_settled src eng (Suc (next_node st)) (Inr r) (dispatched src st) =
     Inr (removed src st [], Some r)"
  by (simp add: fetch_settled_def remove_thinking_dispatched)

lemma sendMessage_rejected:
  "fresh_nodes st \<Longrightarrow> trim (userInput st) \<noteq> [] \<Longrightarrow>
   sendMessage src eng (Inl e) st =
     Inr (rendered src st [ConsoleError ''Fetch Error:'' (LogError e)] Error
            (connection_message src e))"
  by (simp add: sendMessage_def begin_dispatch fetch_settled_rejected)

lemma sendMessage_response:
  "fresh_nodes st \<Longrightarrow> trim (userInput st) \<noteq> [] \<Longrightarrow>
   sendMessage src eng (Inr r) st =
     json_settled src eng (Suc (next_node st)) r (removed src st [])"
  by (simp add: sendMessage_def begin_dispatch fetch_settled_response)

lemma json_settled_reply:
  assumes "fresh_nodes st" "ok r" "json_body r = Inr data" "truthy data"
    "get_prop eng data ''reply'' = Inr (Some v)" "truthy v" "to_text eng v = Inr s"
  shows "json_settled src eng (Suc (next_node st)) r (removed src st []) =
           Inr (rendered src st [] Bot s)"
  using assms by (simp add: json_settled_def truthy_opt_def add_after_removed)

lemma json_settled_reply_thrown:
  assumes "fresh_nodes st" "ok r" "json_body r = Inr data" "truthy data"
    "get_prop eng data ''reply'' = Inr (Some v)" "truthy v" "to_text eng v = Inl e"
  shows "json_settled src eng (Suc (next_node st)) r (removed src st []) =
           Inr (rendered src st [ConsoleError ''Fetch Error:'' (LogError e)] Error
                  (connection_message src e))"
  using assms by (simp add: json_settled_def truthy_opt_def catch_after_removed)

lemma json_settled_invalid:
  assumes "fresh_nodes st" "ok r" "json_body r = Inr data"
    "\<not> truthy data \<or> (\<exists>v. get_prop eng data ''reply'' = Inr v \<and> \<not> truthy_opt v)"
  shows "json_settled src eng (Suc (next_node st)) r (removed src st []) =
           Inr (rendered src st [] Error (invalid_response_message src))"
  using assms by (auto simp: json_settled_def truthy_opt_def add_after_removed)

lemma json_settled_unparsable:
  assumes "fresh_nodes st" "ok r" "json_body r = Inl e"
  shows "json_settled src eng (Suc (next_node st)) r (removed src st []) =
           Inr (rendered src st [ConsoleError ''Fetch Error:'' (LogError e)] Error
                  (connection_message src e))"
  using assms by (simp add: json_settled_def catch_after_removed)

lemma json_settled_http_error:
  assumes "fresh_nodes st" "\<not> ok r" "get_prop eng (error_data r) ''error'' = Inr v"
    "(if truthy_opt v then to_text eng (the v) else Inr (statusText r)) = Inr s"
  shows "json_settled src eng (Suc (next_node st)) r (removed src st []) =
           Inr (rendered src st [ConsoleError (api_error_label src) (LogValue (error_data r))]
                  Error (''Error: '' @ s))"
  using assms(1,2,3) assms(4)
  by (simp add: json_settled_def Let_def console_error_removed add_after_removed)

lemma json_settled_http_error_thrown:
  assumes "fresh_nodes st" "\<not> ok r"
    "get_prop eng (error_data r) ''error'' = Inl e \<or>
     (\<exists>v. get_prop eng (error_data r) ''error'' = Inr v \<and>
          (if truthy_opt v then to_text eng (the v) else Inr (statusText r)) = Inl e)"
  shows "json_settled src eng (Suc (next_node st)) r (removed src st []) =
           Inr (rendered src st [ConsoleError (api_error_label src) (LogValue (error_data r)),
                                 ConsoleError ''Fetch Error:'' (LogError e)]
                  Error (connection_message src e))"
proof -
  from assms(3) show ?thesis
  proof
    assume "get_prop eng (error_data r) ''error'' = Inl e"
    with assms(1,2) show ?thesis
      by (simp add: json_settled_def Let_def console_error_removed catch_after_removed)
  next
    assume "\<exists>v. get_prop eng (error_data r) ''error'' = Inr v \<and>
          (if truthy_opt v then to_text eng (the v) else Inr (statusText r)) = Inl e"
    then obtain v where v: "get_prop eng (error_data r) ''error'' = Inr v"
      and t: "(if truthy_opt v then to_text eng (the v) else Inr (statusText r)) = Inl e"
      by blast
    from assms(1,2) v t show ?thesis
      by (simp add: json_settled_def Let_def console_error_removed catch_after_removed)
  qed
qed

lemma rendersI:
  "x = Inr (rendered src st logged sender txt) \<Longrightarrow> sender \<noteq> User \<Longrightarrow> console_only logged \<Longrightarrow>
   renders src st x"
  unfolding renders_def by blast

lemma get_prop_truthy_never_throws:
  "truthy data \<Longrightarrow> \<exists>v. get_prop eng data p = Inr v"
  by (cases data) simp_all

lemma json_settled_renders:
  assumes f: "fresh_nodes st"
  shows "renders src st (json_settled src eng (Suc (next_node st)) r (removed src st []))"
proof (cases "ok r")
  case False
  show ?thesis
  proof (cases "get_prop eng (error_data r) ''error''")
    case (Inl e)
    show ?thesis
      by (rule rendersI [OF json_settled_http_error_thrown [OF f False]])
        (simp_all add: Inl console_only_def)
  next
    case (Inr v)
    show ?thesis
    proof (cases "if truthy_opt v then to_text eng (the v) else Inr (statusText r)")
      case (Inl e)
      show ?thesis
        by (rule rendersI [OF json_settled_http_error_thrown [OF f False]])
          (simp_all add: Inr Inl console_only_def)
    next
      case s: (Inr s)
      show ?thesis
        by (rule rendersI [OF json_settled_http_error [OF f False Inr s]])
          (simp_all add: console_only_def)
    qed
  qed
next
  case True
  show ?thesis
  proof (cases "json_body r")
    case (Inl e)
    show ?thesis
      by (rule rendersI [OF json_settled_unparsable [OF f True Inl]])
        (simp_all add: console_only_def)
  next
    case (Inr data)
    show ?thesis
    proof (cases "truthy data")
      case False
      then show ?thesis
        by (intro rendersI [OF json_settled_invalid [OF f True Inr]])
          (simp_all add: console_only_def)
    next
      case td: True
      then obtain v where v: "get_prop eng data ''reply'' = Inr v"
        using get_prop_truthy_never_throws by blast
      show ?thesis
      proof (cases "truthy_opt v")
        case False
        with v show ?thesis
          by (intro rendersI [OF json_settled_invalid [OF f True Inr]])
            (simp_all add: console_only_def)
      next
        case tv: True
        then obtain w where w: "v = Some w" "truthy w"
          by (cases v) (simp_all add: truthy_opt_def)
        show ?thesis
        proof (cases "to_text eng w")
          case (Inl e)
          show ?thesis
            by (rule rendersI
                  [OF json_settled_reply_thrown [OF f True Inr td v [unfolded w] w(2) Inl]])
              (simp_all add: console_only_def)
        next
          case s: (Inr s)
          show ?thesis
            by (rule rendersI
                  [OF json_settled_reply [OF f True Inr td v [unfolded w] w(2) s]])
              (simp_all add: console_only_def)
        qed
      qed
    qed
  qed
qed

lemma sendMessage_renders:
  assumes "fresh_nodes st" "trim (userInput st) \<noteq> []"
  shows "renders src st (sendMessage src eng outcome st)"
proof (cases outcome)
  case (Inl e)
  show ?thesis
    unfolding Inl
    by (rule rendersI [OF sendMessage_rejected [OF assms]]) (simp_all add: console_only_def)
next
  case (Inr r)
  show ?thesis
    using json_settled_renders [OF assms(1)] by (simp add: Inr sendMessage_response assms)
qed

lemma trim_empty_iff: "trim s = [] \<longleftrightarrow> (\<forall>c \<in> set s. is_ws c)"
proof
  assume "trim s = []"
  then have all: "\<forall>c \<in> set (dropWhile is_ws s). is_ws c"
    by (simp add: trim_def dropWhile_eq_Nil_conv)
  have "dropWhile is_ws s = []"
  proof (rule ccontr)
    assume ne: "dropWhile is_ws s \<noteq> []"
    then have "\<not> is_ws (hd (dropWhile is_ws s))" by (rule hd_dropWhile)
    moreover from ne have "hd (dropWhile is_ws s) \<in> set (dropWhile is_ws s)" by simp
    ultimately show False using all by blast
  qed
  then show "\<forall>c \<in> set s. is_ws c" by (simp add: dropWhile_eq_Nil_conv)
next
  assume "\<forall>c \<in> set s. is_ws c"
  then have d: "dropWhile is_ws s = []" by (simp add: dropWhile_eq_Nil_conv)
  show "trim s = []" by (simp only: trim_def d rev.simps dropWhile.simps)
qed

lemma chatbox_rendered:
  "chatbox (rendered src st logged sender txt) =
     chatbox st @ [user_entry st, terminal_entry st sender txt]"
  by (simp add: rendered_def)

lemma example_state:
  "fresh_nodes (initial_state\<lparr>userInput := s\<rparr>)"
  by (simp add: fresh_nodes_def initial_state_def)

lemma example_message: "trim (userInput (initial_state\<lparr>userInput := ''hello''\<rparr>)) \<noteq> []"
  by (simp add: trim_def is_ws_def)

lemmas run_defs =
  sendMessage_def sendMessage_begin_def fetch_settled_def json_settled_def catch_block_def
  remove_thinking_def removeChild_def contains_def addMessageToChatbox_def
  addThinkingIndicator_def show_thinking_def console_error_def error_data_def
  api_error_label_def invalid_response_message_def connection_message_def ok_def
  truthy_opt_def trim_def is_ws_def initial_state_def sample_engine_def transcript_def
  Let_def decimal.simps


subsection \<open>A status that is not OK\<close>

lemma http_error_field_text:
  assumes "fresh_nodes st" and "trim (userInput st) \<noteq> []" and "\<not> ok r"
    and "json_body r = Inr (JObject members)"
    and "map_of (rev members) ''error'' = Some v" and "truthy v" and "to_text eng v = Inr s"
  shows "sendMessage src eng (Inr r) st =
           Inr (rendered src st
                  [ConsoleError (api_error_label src) (LogValue (JObject members))]
                  Error (''Error: '' @ s))"
proof -
  have d: "error_data r = JObject members" by (simp add: error_data_def assms(4))
  have "json_settled src eng (Suc (next_node st)) r (removed src st []) =
          Inr (rendered src st [ConsoleError (api_error_label src) (LogValue (error_data r))]
                 Error (''Error: '' @ s))"
    by (rule json_settled_http_error [OF assms(1,3), where v = "Some v"])
       (simp_all add: d assms(5,6,7) truthy_opt_def)
  then show ?thesis by (simp add: sendMessage_response assms(1,2) d)
qed

lemma http_error_unparsable_body:
  assumes "fresh_nodes st" and "trim (userInput st) \<noteq> []" and "\<not> ok r"
    and "json_body r = Inl e"
  shows "sendMessage src eng (Inr r) st =
           Inr (rendered src st
                  [ConsoleError (api_error_label src)
                     (LogValue (JObject [(''error'',
                        JString (''HTTP error! Status: '' @ decimal (status r)))]))]
                  Error (''Error: HTTP error! Status: '' @ decimal (status r)))"
proof -
  have d: "error_data r =
             JObject [(''error'', JString (''HTTP error! Status: '' @ decimal (status r)))]"
    by (simp add: error_data_def assms(4))
  have "json_settled src eng (Suc (next_node st)) r (removed src st []) =
          Inr (rendered src st [ConsoleError (api_error_label src) (LogValue (error_data r))]
                 Error (''Error: '' @ (''HTTP error! Status: '' @ decimal (status r))))"
    by (rule json_settled_http_error
          [OF assms(1,3),
           where v = "Some (JString (''HTTP error! Status: '' @ decimal (status r)))"])
       (simp_all add: d truthy_opt_def)
  then show ?thesis by (simp add: sendMessage_response assms(1,2) d)
qed

lemma http_error_status_text:
  assumes "fresh_nodes st" and "trim (userInput st) \<noteq> []" and "\<not> ok r"
    and "json_body r = Inr data" and "data \<noteq> JNull"
    and "get_prop eng data ''error'' = Inr v" and "\<not> truthy_opt v"
  shows "sendMessage src eng (Inr r) st =
           Inr (rendered src st [ConsoleError (api_error_label src) (LogValue data)]
                  Error (''Error: '' @ statusText r))"
proof -
  have d: "error_data r = data" by (simp add: error_data_def assms(4))
  have "json_settled src eng (Suc (next_node st)) r (removed src st []) =
          Inr (rendered src st [ConsoleError (api_error_label src) (LogValue (error_data r))]
                 Error (''Error: '' @ statusText r))"
    by (rule json_settled_http_error [OF assms(1,3), where v = v])
       (simp_all add: d assms(6,7))
  then show ?thesis by (simp add: sendMessage_response assms(1,2) d)
qed

lemma http_error_null_body:
  assumes "fresh_nodes st" and "trim (userInput st) \<noteq> []" and "\<not> ok r"
    and "json_body r = Inr JNull"
  shows "sendMessage src eng (Inr r) st =
           Inr (rendered src st
                  [ConsoleError (api_error_label src) (LogValue JNull),
                   ConsoleError ''Fetch Error:'' (LogError (null_read eng ''error''))]
                  Error (connection_message src (null_read eng ''error'')))"
proof -
  have d: "error_data r = JNull" by (simp add: error_data_def assms(4))
  have "json_settled src eng (Suc (next_node st)) r (removed src st []) =
          Inr (rendered src st [ConsoleError (api_error_label src) (LogValue (error_data r)),
                                ConsoleError ''Fetch Error:'' (LogError (null_read eng ''error''))]
                 Error (connection_message src (null_read eng ''error'')))"
    by (rule json_settled_http_error_thrown [OF assms(1,3)]) (simp add: d)
  then show ?thesis by (simp add: sendMessage_response assms(1,2) d)
qed

subsection \<open>The chatbox along the events of an exchange\<close>

lemma children_after_append:
  "children_after ids (xs @ ys) = children_after (children_after ids xs) ys"
  by (induction ids xs rule: children_after.induct) simp_all

lemma in_children_after:
  "i \<in> set (children_after ids evs) \<Longrightarrow>
   i \<in> set ids \<or> (\<exists>e. AppendChild e \<in> set evs \<and> node e = i)"
  by (induction ids evs rule: children_after.induct) (auto split: if_splits)

lemma take_within: "k \<le> length xs \<Longrightarrow> take k (xs @ ys) = take k xs"
  by simp

lemma fresh_not_child:
  "fresh_nodes st \<Longrightarrow> next_node st \<le> i \<Longrightarrow> i \<notin> set (map node (chatbox st))"
  by (auto simp: fresh_nodes_def)

section \<open>The pieces of sendMessage from any state\<close>

lemma remove_thinking_cleared: "remove_thinking eng h s = Inr (cleared h s)"
  by (simp add: remove_thinking_def removeChild_def contains_def without_def cleared_def)

lemma cleared_absent: "\<not> contains s h \<Longrightarrow> cleared h s = s"
  by (simp add: cleared_def)

lemma cleared_present: "contains s h \<Longrightarrow> cleared h s = without h s"
  by (simp add: cleared_def)

lemma not_contains_without: "\<not> contains (without h s) h"
  by (auto simp: contains_def without_def)

lemma not_contains_cleared: "\<not> contains (cleared h s) h"
  by (simp add: cleared_def not_contains_without)

lemma cleared_cleared: "cleared h (cleared h s) = cleared h s"
  by (simp add: cleared_absent not_contains_cleared)

lemma add_message_appended:
  "fst (addMessageToChatbox txt sender s) = appended s [] sender txt"
  by (simp add: addMessageToChatbox_def appended_def Let_def)

lemma appended_console:
  "appended (console_error label arg s) logged sender txt =
     appended s (ConsoleError label arg # logged) sender txt"
  by (simp add: appended_def console_error_def)

lemma catch_block_any:
  "catch_block src eng h e s =
     Inr (appended (cleared h s) [ConsoleError ''Fetch Error:'' (LogError e)] Error
            (connection_message src e))"
  by (simp add: catch_block_def remove_thinking_cleared add_message_appended appended_console)

lemma fetch_settled_rejected_any:
  "fetch_settled src eng h (Inl e) s =
     Inr (appended (cleared h s) [ConsoleError ''Fetch Error:'' (LogError e)] Error
            (connection_message src e), None)"
  by (simp add: fetch_settled_def catch_block_any)

lemma fetch_settled_response_any:
  "fetch_settled src eng h (Inr r) s = Inr (cleared h s, Some r)"
  by (simp add: fetch_settled_def remove_thinking_cleared)

lemma appendsI:
  "x = Inr (appended s logged sender txt) \<Longrightarrow> sender \<noteq> User \<Longrightarrow> console_only logged \<Longrightarrow>
   appends s x"
  unfolding appends_def by blast

lemma settles_kept:
  "x = Inr (appended (with_log pre s) post sender txt) \<Longrightarrow> sender \<noteq> User \<Longrightarrow>
   console_only pre \<Longrightarrow> console_only post \<Longrightarrow> settles h s x"
  unfolding settles_def by blast

lemma settles_cleared:
  "x = Inr (appended (cleared h (with_log pre s)) post sender txt) \<Longrightarrow> sender \<noteq> User \<Longrightarrow>
   console_only pre \<Longrightarrow> console_only post \<Longrightarrow> settles h s x"
  unfolding settles_def by blast

lemma with_log_Nil: "with_log [] s = s"
  by (simp add: with_log_def)

lemma console_error_with_log: "console_error label arg s = with_log [ConsoleError label arg] s"
  by (simp add: console_error_def with_log_def)

lemma console_only_simps:
  "console_only []" "console_only (ConsoleError label arg # evs) = console_only evs"
  by (simp_all add: console_only_def)

lemma json_settled_settles: "settles h s (json_settled src eng h r s)"
proof (cases "ok r")
  case False
  let ?c = "ConsoleError (api_error_label src) (LogValue (error_data r))"
  show ?thesis
  proof (cases "get_prop eng (error_data r) ''error''")
    case (Inl e)
    show ?thesis
      by (rule settles_cleared [where sender = Error and pre = "[?c]"
            and post = "[ConsoleError ''Fetch Error:'' (LogError e)]"])
         (simp_all add: json_settled_def False Inl Let_def catch_block_any
            console_error_with_log console_only_simps)
  next
    case (Inr v)
    show ?thesis
    proof (cases "if truthy_opt v then to_text eng (the v) else Inr (statusText r)")
      case (Inl e)
      show ?thesis
        by (rule settles_cleared [where sender = Error and pre = "[?c]"
              and post = "[ConsoleError ''Fetch Error:'' (LogError e)]"])
           (simp_all add: json_settled_def False Inr Inl Let_def catch_block_any
              console_error_with_log console_only_simps)
    next
      case t: (Inr t)
      show ?thesis
        by (rule settles_kept [where sender = Error and pre = "[?c]" and post = "[]"])
           (simp_all add: json_settled_def False Inr t Let_def add_message_appended
              console_error_with_log console_only_simps)
    qed
  qed
next
  case True
  show ?thesis
  proof (cases "json_body r")
    case (Inl e)
    show ?thesis
      by (rule settles_cleared [where sender = Error and pre = "[]"
            and post = "[ConsoleError ''Fetch Error:'' (LogError e)]"])
         (simp_all add: json_settled_def True Inl catch_block_any with_log_Nil
            console_only_simps)
  next
    case (Inr data)
    show ?thesis
    proof (cases "if truthy data then get_prop eng data ''reply'' else Inr None")
      case (Inl e)
      show ?thesis
        by (rule settles_cleared [where sender = Error and pre = "[]"
              and post = "[ConsoleError ''Fetch Error:'' (LogError e)]"])
           (simp_all add: json_settled_def True Inr Inl catch_block_any with_log_Nil
              console_only_simps)
    next
      case v: (Inr v)
      show ?thesis
      proof (cases "truthy_opt v")
        case False
        show ?thesis
          by (rule settles_kept [where sender = Error and pre = "[]" and post = "[]"])
             (simp_all add: json_settled_def True Inr v False add_message_appended
                with_log_Nil console_only_simps)
      next
        case tv: True
        show ?thesis
        proof (cases "to_text eng (the v)")
          case (Inl e)
          show ?thesis
            by (rule settles_cleared [where sender = Error and pre = "[]"
                  and post = "[ConsoleError ''Fetch Error:'' (LogError e)]"])
               (simp_all add: json_settled_def True Inr v tv Inl catch_block_any
                  with_log_Nil console_only_simps)
        next
          case t: (Inr t)
          show ?thesis
            by (rule settles_kept [where sender = Bot and pre = "[]" and post = "[]"])
               (simp_all add: json_settled_def True Inr v tv t add_message_appended
                  with_log_Nil console_only_simps)
        qed
      qed
    qed
  qed
qed

lemma contains_with_log: "contains (with_log evs s) h = contains s h"
  by (simp add: contains_def with_log_def)

lemma appended_with_log:
  "appended (with_log pre s) post sender txt = appended s (pre @ post) sender txt"
  by (simp add: appended_def with_log_def)

lemma console_only_append:
  "console_only (xs @ ys) \<longleftrightarrow> console_only xs \<and> console_only ys"
  by (simp add: console_only_def)

lemma json_settled_appends:
  assumes "\<not> contains s h"
  shows "appends s (json_settled src eng h r s)"
proof -
  from json_settled_settles [of h s src eng r]
  obtain pre post sender shown
    where x: "json_settled src eng h r s = Inr (appended (with_log pre s) post sender shown) \<or>
              json_settled src eng h r s =
                Inr (appended (cleared h (with_log pre s)) post sender shown)"
      and s: "sender \<noteq> User" and c: "console_only pre" "console_only post"
    unfolding settles_def by blast
  have "cleared h (with_log pre s) = with_log pre s"
    by (rule cleared_absent) (simp add: contains_with_log assms)
  with x have "json_settled src eng h r s = Inr (appended s (pre @ post) sender shown)"
    by (simp add: appended_with_log)
  then show ?thesis
    by (rule appendsI) (simp_all add: s c console_only_append)
qed

subsection \<open>What the pieces keep\<close>

lemma fresh_without: "fresh_nodes s \<Longrightarrow> fresh_nodes (without h s)"
  by (simp add: fresh_nodes_def without_def)

lemma fresh_cleared: "fresh_nodes s \<Longrightarrow> fresh_nodes (cleared h s)"
  by (simp add: cleared_def fresh_without)

lemma fresh_appended: "fresh_nodes s \<Longrightarrow> fresh_nodes (appended s logged sender txt)"
  by (auto simp: fresh_nodes_def appended_def less_Suc_eq)

lemma fresh_dispatched: "fresh_nodes st \<Longrightarrow> fresh_nodes (dispatched src st)"
  by (auto simp: fresh_nodes_def dispatched_def user_entry_def thinking_entry_def)

lemma contains_dispatched: "contains (dispatched src st) (Suc (next_node st))"
  by (simp add: contains_def dispatched_def thinking_entry_def)

lemma next_node_cleared: "next_node (cleared h s) = next_node s"
  by (simp add: cleared_def without_def)

lemma contains_cleared_other: "h' \<noteq> h \<Longrightarrow> contains (cleared h' s) h = contains s h"
  by (auto simp: cleared_def contains_def without_def)

lemma contains_appended:
  "contains (appended s logged sender txt) h \<longleftrightarrow> contains s h \<or> h = next_node s"
  by (auto simp: contains_def appended_def)

lemma trace_cleared:
  "trace (cleared h s) = trace s @ (if contains s h then [RemoveChild h] else [])"
  by (simp add: cleared_def without_def)

lemma trace_appended:
  "trace (appended s logged sender txt) =
     trace s @ logged @
     [AppendChild \<lparr>node = next_node s, sender_class = sender, content = Text txt\<rparr>]"
  by (simp add: appended_def)


lemma trace_dispatched: "trace (dispatched src st) = trace st @ dispatch_events src st"
  by (simp add: dispatched_def)

lemma next_node_dispatched: "next_node (dispatched src st) = next_node st + 2"
  by (simp add: dispatched_def)

lemma fresh_with_log: "fresh_nodes (with_log evs s) = fresh_nodes s"
  by (simp add: fresh_nodes_def with_log_def)

lemma next_node_with_log: "next_node (with_log evs s) = next_node s"
  by (simp add: with_log_def)

lemma trace_with_log: "trace (with_log evs s) = trace s @ evs"
  by (simp add: with_log_def)

lemma next_node_appended: "next_node (appended s logged sender txt) = Suc (next_node s)"
  by (simp add: appended_def)

subsection \<open>Handlers that leave an exchange alone\<close>

lemma bystanderI:
  assumes "\<And>s. fresh_nodes s \<Longrightarrow> h < next_node s \<Longrightarrow>
             fresh_nodes (f s) \<and> next_node s \<le> next_node (f s) \<and>
             contains (f s) h = contains s h \<and>
             (\<exists>evs. trace (f s) = trace s @ evs \<and> RemoveChild h \<notin> set evs \<and>
                    (\<forall>e. AppendChild e \<in> set evs \<longrightarrow>
                         next_node s \<le> node e \<and> node e < next_node (f s)))"
  shows "bystander h f"
  unfolding bystander_def using assms by blast

lemma bystanderD:
  assumes "bystander h f" and "fresh_nodes s" and "h < next_node s"
  obtains evs where "fresh_nodes (f s)" and "next_node s \<le> next_node (f s)"
    and "contains (f s) h = contains s h" and "trace (f s) = trace s @ evs"
    and "RemoveChild h \<notin> set evs"
    and "\<And>e. AppendChild e \<in> set evs \<Longrightarrow> next_node s \<le> node e \<and> node e < next_node (f s)"
  using assms unfolding bystander_def by blast

lemma bystander_nothing: "bystander h (\<lambda>s. s)"
  by (rule bystanderI) simp

lemma bystander_typing: "bystander h (\<lambda>s. s\<lparr>userInput := v\<rparr>)"
  by (rule bystanderI) (simp add: fresh_nodes_def contains_def)

lemma bystander_toggleChat: "bystander h toggleChat"
  by (rule bystanderI) (simp add: toggleChat_def fresh_nodes_def contains_def)

lemma bystander_then:
  assumes f: "bystander h f" and g: "bystander h g"
  shows "bystander h (\<lambda>s. g (f s))"
proof (rule bystanderI)
  fix s assume s: "fresh_nodes s" "h < next_node s"
  from bystanderD [OF f s] obtain evs1
    where f1: "fresh_nodes (f s)" "next_node s \<le> next_node (f s)"
      "contains (f s) h = contains s h" "trace (f s) = trace s @ evs1"
      "RemoveChild h \<notin> set evs1"
      and a1: "\<And>e. AppendChild e \<in> set evs1 \<Longrightarrow>
                 next_node s \<le> node e \<and> node e < next_node (f s)"
    by blast
  from f1(2) s(2) have h2: "h < next_node (f s)" by simp
  from bystanderD [OF g f1(1) h2] obtain evs2
    where g1: "fresh_nodes (g (f s))" "next_node (f s) \<le> next_node (g (f s))"
      "contains (g (f s)) h = contains (f s) h" "trace (g (f s)) = trace (f s) @ evs2"
      "RemoveChild h \<notin> set evs2"
      and a2: "\<And>e. AppendChild e \<in> set evs2 \<Longrightarrow>
                 next_node (f s) \<le> node e \<and> node e < next_node (g (f s))"
    by blast
  have "trace (g (f s)) = trace s @ (evs1 @ evs2)" by (simp add: g1(4) f1(4))
  moreover have "RemoveChild h \<notin> set (evs1 @ evs2)" using f1(5) g1(5) by simp
  moreover have "\<forall>e. AppendChild e \<in> set (evs1 @ evs2) \<longrightarrow>
                   next_node s \<le> node e \<and> node e < next_node (g (f s))"
    using a1 a2 f1(2) g1(2) by fastforce
  ultimately show "fresh_nodes (g (f s)) \<and> next_node s \<le> next_node (g (f s)) \<and>
        contains (g (f s)) h = contains s h \<and>
        (\<exists>evs. trace (g (f s)) = trace s @ evs \<and> RemoveChild h \<notin> set evs \<and>
               (\<forall>e. AppendChild e \<in> set evs \<longrightarrow>
                    next_node s \<le> node e \<and> node e < next_node (g (f s))))"
    using g1(1,2,3) f1(2,3) by (metis le_trans)
qed

lemma bystander_begin: "bystander h (\<lambda>s. fst (sendMessage_begin src s))"
proof (rule bystanderI)
  fix s assume s: "fresh_nodes s" "h < next_node s"
  show "fresh_nodes (fst (sendMessage_begin src s)) \<and>
        next_node s \<le> next_node (fst (sendMessage_begin src s)) \<and>
        contains (fst (sendMessage_begin src s)) h = contains s h \<and>
        (\<exists>evs. trace (fst (sendMessage_begin src s)) = trace s @ evs \<and>
               RemoveChild h \<notin> set evs \<and>
               (\<forall>e. AppendChild e \<in> set evs \<longrightarrow>
                    next_node s \<le> node e \<and>
                    node e < next_node (fst (sendMessage_begin src s))))"
  proof (cases "trim (userInput s) = []")
    case True
    then show ?thesis using s(1) by (simp add: begin_empty)
  next
    case False
    have "contains (dispatched src s) h = contains s h"
      using s(2) by (auto simp: contains_def dispatched_def user_entry_def thinking_entry_def)
    moreover have "RemoveChild h \<notin> set (dispatch_events src s)"
      by (simp add: dispatch_events_def)
    moreover have "\<forall>e. AppendChild e \<in> set (dispatch_events src s) \<longrightarrow>
                     next_node s \<le> node e \<and> node e < next_node (dispatched src s)"
      by (auto simp: dispatch_events_def dispatched_def user_entry_def thinking_entry_def)
    ultimately show ?thesis
      using fresh_dispatched [OF s(1), of src]
      by (simp add: begin_dispatch [OF False] next_node_dispatched trace_dispatched)
  qed
qed


lemma bystander_cleared: "h' \<noteq> h \<Longrightarrow> bystander h (cleared h')"
  by (rule bystanderI)
     (simp add: fresh_cleared next_node_cleared contains_cleared_other trace_cleared)

lemma console_only_no_events:
  "console_only evs \<Longrightarrow> RemoveChild h \<notin> set evs \<and> (\<forall>e. AppendChild e \<notin> set evs)"
  by (auto simp: console_only_def list_all_iff)

lemma bystander_with_log: "console_only evs \<Longrightarrow> bystander h (with_log evs)"
  by (rule bystanderI)
     (simp add: fresh_with_log next_node_with_log contains_with_log trace_with_log
        console_only_no_events)

lemma bystander_appended:
  assumes "console_only logged"
  shows "bystander h (\<lambda>s. appended s logged sender txt)"
proof (rule bystanderI)
  fix s assume s: "fresh_nodes s" "h < next_node s"
  from s(2) have "contains (appended s logged sender txt) h = contains s h"
    by (simp add: contains_appended)
  then show "fresh_nodes (appended s logged sender txt) \<and>
        next_node s \<le> next_node (appended s logged sender txt) \<and>
        contains (appended s logged sender txt) h = contains s h \<and>
        (\<exists>evs. trace (appended s logged sender txt) = trace s @ evs \<and>
               RemoveChild h \<notin> set evs \<and>
               (\<forall>e. AppendChild e \<in> set evs \<longrightarrow>
                    next_node s \<le> node e \<and>
                    node e < next_node (appended s logged sender txt)))"
    using console_only_no_events [OF assms]
    by (auto simp: fresh_appended [OF s(1)] next_node_appended trace_appended)
qed

text \<open>The two later pieces of another exchange, whose indicator is the node \<open>h'\<close>.\<close>

lemma bystander_fetch_settled:
  assumes "h' \<noteq> h"
  shows "bystander h (\<lambda>s. case fetch_settled src eng h' outcome s of
                            Inl e \<Rightarrow> s | Inr (s', k) \<Rightarrow> s')"
proof (cases outcome)
  case (Inl e)
  have "bystander h (\<lambda>s. appended (cleared h' s)
          [ConsoleError ''Fetch Error:'' (LogError e)] Error (connection_message src e))"
    by (rule bystander_then [OF bystander_cleared [OF assms] bystander_appended])
       (simp add: console_only_def)
  then show ?thesis by (simp add: Inl fetch_settled_rejected_any)
next
  case (Inr r)
  show ?thesis using bystander_cleared [OF assms] by (simp add: Inr fetch_settled_response_any)
qed

lemma bystander_json_settled:
  assumes "h' \<noteq> h"
  shows "bystander h (\<lambda>s. case json_settled src eng h' r s of Inl e \<Rightarrow> s | Inr s' \<Rightarrow> s')"
proof (rule bystanderI)
  fix s assume s: "fresh_nodes s" "h < next_node s"
  let ?f = "\<lambda>s. case json_settled src eng h' r s of Inl e \<Rightarrow> s | Inr s' \<Rightarrow> s'"
  from json_settled_settles [of h' s src eng r]
  obtain pre post sender shown
    where x: "json_settled src eng h' r s = Inr (appended (with_log pre s) post sender shown) \<or>
              json_settled src eng h' r s =
                Inr (appended (cleared h' (with_log pre s)) post sender shown)"
      and c: "console_only pre" "console_only post"
    unfolding settles_def by blast
  have kept: "bystander h (\<lambda>s. appended (with_log pre s) post sender shown)"
    by (rule bystander_then [OF bystander_with_log [OF c(1)] bystander_appended [OF c(2)]])
  have gone: "bystander h (\<lambda>s. appended (cleared h' (with_log pre s)) post sender shown)"
    by (rule bystander_then
          [OF bystander_then [OF bystander_with_log [OF c(1)] bystander_cleared [OF assms]]
              bystander_appended [OF c(2)]])
  from x show "fresh_nodes (?f s) \<and> next_node s \<le> next_node (?f s) \<and>
        contains (?f s) h = contains s h \<and>
        (\<exists>evs. trace (?f s) = trace s @ evs \<and> RemoveChild h \<notin> set evs \<and>
               (\<forall>e. AppendChild e \<in> set evs \<longrightarrow>
                    next_node s \<le> node e \<and> node e < next_node (?f s)))"
  proof
    assume a: "json_settled src eng h' r s = Inr (appended (with_log pre s) post sender shown)"
    show ?thesis using kept s unfolding bystander_def by (simp add: a)
  next
    assume a: "json_settled src eng h' r s =
                 Inr (appended (cleared h' (with_log pre s)) post sender shown)"
    show ?thesis using gone s unfolding bystander_def by (simp add: a)
  qed
qed

subsection \<open>The chatbox along the events, with other handlers in between\<close>

lemma gone_after_remove:
  assumes "\<forall>e. AppendChild e \<in> set after \<longrightarrow> node e \<noteq> h"
  shows "h \<notin> set (children_after ids (before @ [RemoveChild h] @ after))"
proof
  assume "h \<in> set (children_after ids (before @ [RemoveChild h] @ after))"
  then have "h \<in> set (children_after (filter (\<lambda>i. i \<noteq> h) (children_after ids before)) after)"
    by (simp add: children_after_append)
  then have "h \<in> set (filter (\<lambda>i. i \<noteq> h) (children_after ids before)) \<or>
             (\<exists>e. AppendChild e \<in> set after \<and> node e = h)"
    by (rule in_children_after)
  with assms show False by auto
qed

lemma never_both_among:
  assumes new: "t \<notin> set ids"
    and before: "\<forall>e. AppendChild e \<in> set before \<longrightarrow> node e \<noteq> t"
    and between: "\<forall>e. AppendChild e \<in> set between \<longrightarrow> node e \<noteq> t \<and> node e \<noteq> h"
    and t: "node entry = t" "t \<noteq> h"
    and k: "k \<le> length (before @ [RemoveChild h] @ between @ [AppendChild entry])"
  shows "\<not> (h \<in> set (children_after ids
                        (take k (before @ [RemoveChild h] @ between @ [AppendChild entry]))) \<and>
            t \<in> set (children_after ids
                        (take k (before @ [RemoveChild h] @ between @ [AppendChild entry]))))"
proof (cases "k = length (before @ [RemoveChild h] @ between @ [AppendChild entry])")
  case True
  have "h \<notin> set (children_after ids (before @ [RemoveChild h] @ (between @ [AppendChild entry])))"
    by (rule gone_after_remove) (use between t in auto)
  then show ?thesis by (simp add: True)
next
  case False
  let ?p = "before @ [RemoveChild h] @ between"
  have split: "before @ [RemoveChild h] @ between @ [AppendChild entry] = ?p @ [AppendChild entry]"
    by simp
  from False k have "k \<le> length ?p" by simp
  then have tk: "take k (before @ [RemoveChild h] @ between @ [AppendChild entry]) = take k ?p"
    unfolding split by (rule take_within)
  have "t \<notin> set (children_after ids (take k ?p))"
  proof
    assume "t \<in> set (children_after ids (take k ?p))"
    then have "t \<in> set ids \<or> (\<exists>e. AppendChild e \<in> set (take k ?p) \<and> node e = t)"
      by (rule in_children_after)
    with new obtain e where e: "AppendChild e \<in> set (take k ?p)" "node e = t" by blast
    from e(1) have "AppendChild e \<in> set ?p" by (rule in_set_takeD)
    with before between e(2) show False by auto
  qed
  then show ?thesis by (simp only: tk) blast
qed


lemma among_events_once_and_apart:
  assumes f: "fresh_nodes st"
    and e1: "RemoveChild (Suc (next_node st)) \<notin> set evs1"
      "\<forall>e. AppendChild e \<in> set evs1 \<longrightarrow> node e < node entry"
    and e2: "RemoveChild (Suc (next_node st)) \<notin> set evs2"
      "\<forall>e. AppendChild e \<in> set evs2 \<longrightarrow> node e < node entry \<and> node e \<noteq> Suc (next_node st)"
    and t: "next_node st + 2 \<le> node entry"
  shows "count_list (among_events src st evs1 evs2 entry) (RemoveChild (Suc (next_node st))) = 1"
    and "\<forall>k. k \<le> length (among_events src st evs1 evs2 entry) \<longrightarrow>
           \<not> (Suc (next_node st) \<in>
                  set (children_after (map node (chatbox st))
                         (take k (among_events src st evs1 evs2 entry))) \<and>
                node entry \<in>
                  set (children_after (map node (chatbox st))
                         (take k (among_events src st evs1 evs2 entry))))"
proof -
  have z1: "count_list evs1 (RemoveChild (Suc (next_node st))) = 0"
    using e1(1) by (simp add: count_list_0_iff)
  have z2: "count_list evs2 (RemoveChild (Suc (next_node st))) = 0"
    using e2(1) by (simp add: count_list_0_iff)
  show "count_list (among_events src st evs1 evs2 entry) (RemoveChild (Suc (next_node st))) = 1"
    by (simp add: among_events_def dispatch_events_def z1 z2)
  have new: "node entry \<notin> set (map node (chatbox st))"
    by (rule fresh_not_child [OF f]) (use t in simp)
  have before: "\<forall>e. AppendChild e \<in> set (dispatch_events src st @ evs1) \<longrightarrow>
                  node e \<noteq> node entry"
    using e1(2) t by (auto simp: dispatch_events_def user_entry_def thinking_entry_def)
  have between: "\<forall>e. AppendChild e \<in> set evs2 \<longrightarrow>
                   node e \<noteq> node entry \<and> node e \<noteq> Suc (next_node st)"
    using e2(2) by auto
  have apart: "node entry \<noteq> Suc (next_node st)" using t by simp
  have shape: "among_events src st evs1 evs2 entry =
                 (dispatch_events src st @ evs1) @ [RemoveChild (Suc (next_node st))] @ evs2 @
                 [AppendChild entry]"
    by (simp add: among_events_def)
  show "\<forall>k. k \<le> length (among_events src st evs1 evs2 entry) \<longrightarrow>
           \<not> (Suc (next_node st) \<in>
                  set (children_after (map node (chatbox st))
                         (take k (among_events src st evs1 evs2 entry))) \<and>
                node entry \<in>
                  set (children_after (map node (chatbox st))
                         (take k (among_events src st evs1 evs2 entry))))"
    unfolding shape
    using never_both_among [OF new before between refl apart] by blast
qed

lemma removal_is_noop_when_gone:
  assumes "\<not> contains s h"
  shows "remove_thinking eng h s = Inr s" and "removeChild eng h s = Inl (not_a_child eng)"
  using assms by (simp_all add: remove_thinking_def removeChild_def contains_def)

lemma sendMessage_alone:
  "sendMessage src eng outcome st = sendMessage_among src eng outcome (\<lambda>s. s) (\<lambda>s. s) st"
  by (simp add: sendMessage_def sendMessage_among_def)

section \<open>The claims\<close>





text \<open>
  C5. When the input field holds white space only (or nothing), \<^verbatim>\<open>sendMessage\<close> returns
  with the page as it was: no entry, no indicator, no request, nothing logged.
\<close>
theorem whitespace_submit_noop:
  assumes "\<forall>c \<in> set (userInput st). is_ws c"
  shows "sendMessage_begin src st = (st, None) \<and> sendMessage src eng outcome st = Inr st"
proof -
  from assms have "trim (userInput st) = []" by (simp add: trim_empty_iff)
  then show ?thesis by (simp add: sendMessage_def begin_empty)
qed

theorem whitespace_submit_noop_witness:
  "list_all is_ws (userInput (initial_state\<lparr>userInput := [CHR 0x20, CHR 0x09, CHR 0xA0]\<rparr>)) \<and>
   sendMessage_begin Part_000 (initial_state\<lparr>userInput := [CHR 0x20, CHR 0x09, CHR 0xA0]\<rparr>) =
     (initial_state\<lparr>userInput := [CHR 0x20, CHR 0x09, CHR 0xA0]\<rparr>, None) \<and>
   sendMessage Part_000 sample_engine (Inl (JsError ''TypeError'' ''Failed to fetch''))
     (initial_state\<lparr>userInput := [CHR 0x20, CHR 0x09, CHR 0xA0]\<rparr>) =
     Inr (initial_state\<lparr>userInput := [CHR 0x20, CHR 0x09, CHR 0xA0]\<rparr>)"
  using whitespace_submit_noop
    [of "initial_state\<lparr>userInput := [CHR 0x20, CHR 0x09, CHR 0xA0]\<rparr>" Part_000 sample_engine
        "Inl (JsError ''TypeError'' ''Failed to fetch'')"]
  by (simp add: is_ws_def)

text \<open>
  C10. When the input field holds white space only (or nothing), its content is the
  same after the call, at the first \<^verbatim>\<open>await\<close> and at the end.
\<close>
theorem whitespace_keeps_input:
  assumes "\<forall>c \<in> set (userInput st). is_ws c"
  shows "userInput (fst (sendMessage_begin src st)) = userInput st \<and>
         (\<forall>st'. sendMessage src eng outcome st = Inr st' \<longrightarrow> userInput st' = userInput st)"
proof -
  from assms have "trim (userInput st) = []" by (simp add: trim_empty_iff)
  then show ?thesis by (simp add: sendMessage_def begin_empty)
qed

theorem whitespace_keeps_input_witness:
  "list_all is_ws (userInput (initial_state\<lparr>userInput := ''   ''\<rparr>)) \<and>
   userInput (fst (sendMessage_begin Static_script (initial_state\<lparr>userInput := ''   ''\<rparr>))) = ''   ''"
  using whitespace_keeps_input
    [of "initial_state\<lparr>userInput := ''   ''\<rparr>" Static_script]
  by (simp add: is_ws_def)

text \<open>
  C7. When the trimmed input is not empty, the first piece of \<^verbatim>\<open>sendMessage\<close> appends
  one entry of the user with the trimmed text, then clears the input field, then appends
  the indicator (an entry of the bot's class), and only then calls \<^verbatim>\<open>fetch\<close>, with the
  trimmed text as the query.
\<close>
theorem user_entry_before_dispatch:
  assumes "trim (userInput st) \<noteq> []"
  shows "sendMessage_begin src st = (dispatched src st, Some (Suc (next_node st))) \<and>
         trace (dispatched src st) =
           trace st @
           [AppendChild \<lparr>node = next_node st, sender_class = User,
                         content = Text (trim (userInput st))\<rparr>,
            SetValue [],
            AppendChild (thinking_entry src st),
            Fetch \<lparr>url = ''/chat'', http_method = ''POST'',
                   headers = [(''Content-Type'', ''application/json'')],
                   body = JObject [(''query'', JString (trim (userInput st)))]\<rparr>] \<and>
         chatbox (dispatched src st) =
           chatbox st @
           [\<lparr>node = next_node st, sender_class = User, content = Text (trim (userInput st))\<rparr>,
            thinking_entry src st] \<and>
         sender_class (thinking_entry src st) = Bot \<and>
         userInput (dispatched src st) = []"
  using assms
  by (simp add: begin_dispatch dispatched_def dispatch_events_def user_entry_def
        chat_request_def thinking_entry_def)

theorem user_entry_before_dispatch_witness:
  "trim (userInput (initial_state\<lparr>userInput := '' What is an entitlement? ''\<rparr>)) \<noteq> [] \<and>
   trace (fst (sendMessage_begin Part_000
                 (initial_state\<lparr>userInput := '' What is an entitlement? ''\<rparr>))) =
     [AppendChild \<lparr>node = 1, sender_class = User, content = Text ''What is an entitlement?''\<rparr>,
      SetValue [],
      AppendChild \<lparr>node = 2, sender_class = Bot, content = Dots\<rparr>,
      Fetch \<lparr>url = ''/chat'', http_method = ''POST'',
             headers = [(''Content-Type'', ''application/json'')],
             body = JObject [(''query'', JString ''What is an entitlement?'')]\<rparr>] \<and>
   userInput (fst (sendMessage_begin Part_000
                 (initial_state\<lparr>userInput := '' What is an entitlement? ''\<rparr>))) = []"
  using user_entry_before_dispatch
    [of "initial_state\<lparr>userInput := '' What is an entitlement? ''\<rparr>" Part_000]
  by (simp add: initial_state_def trim_def is_ws_def thinking_entry_def dispatched_def)

text \<open>
  C8. \<^verbatim>\<open>toggleChat\<close> turns a closed panel into an open one and an open panel into a closed
  one; twice in a row it gives the panel state it started from, and the page is loaded
  with the panel closed.
\<close>
theorem toggle_twice_restores_panel:
  "panel_state (toggleChat st) = (case panel_state st of Closed \<Rightarrow> Open | Open \<Rightarrow> Closed) \<and>
   panel_state (toggleChat (toggleChat st)) = panel_state st \<and>
   panel_state initial_state = Closed \<and>
   panel_state (toggleChat (toggleChat initial_state)) = Closed"
  by (simp add: panel_state_def toggleChat_def classList_add_def classList_remove_def
        initial_state_def)






text \<open>
  C3. A status 500 with the body \<^verbatim>\<open>null\<close>, which parses and has no error field, does not
  fall back to the status text: reading \<^verbatim>\<open>errorData.error\<close> throws, and the entry is the
  one of the \<^verbatim>\<open>catch\<close> block. The OK path guards the same read with \<^verbatim>\<open>data &&\<close>. With the
  body \<^verbatim>\<open>{}\<close> the entry is the status text after \<^verbatim>\<open>Error: \<close>. (For other bodies see the
  lemmas \<open>http_error_field_text\<close>, for an error field that is truthy and has a text,
  \<open>http_error_unparsable_body\<close> and \<open>http_error_status_text\<close>, for a body that is not
  \<^verbatim>\<open>null\<close> and has no truthy error field.)
\<close>

theorem http_error_null_body_lands_in_catch:
  "transcript
     (sendMessage Part_000 sample_engine
        (Inr \<lparr>status = 500, statusText = ''Internal Server Error'', json_body = Inr JNull\<rparr>)
        (initial_state\<lparr>userInput := ''hello''\<rparr>)) =
     [(Bot, Text ''Hello! How can I help you with entitlements today?''),
      (User, Text ''hello''), (Error, Text ''Connection error. Please try again later.'')] \<and>
   transcript
     (sendMessage Static_script sample_engine
        (Inr \<lparr>status = 500, statusText = ''Internal Server Error'', json_body = Inr JNull\<rparr>)
        (initial_state\<lparr>userInput := ''hello''\<rparr>)) =
     [(Bot, Text ''Hello! How can I help you with entitlements today?''),
      (User, Text ''hello''),
      (Error, Text (''Network error or failed to connect to the server. '' @
                    ''(Cannot read properties of null (reading '' @ [CHR 0x27] @ ''error'' @
                    [CHR 0x27] @ ''))''))] \<and>
   transcript
     (sendMessage Part_000 sample_engine
        (Inr \<lparr>status = 500, statusText = ''Internal Server Error'',
              json_body = Inr (JObject [])\<rparr>)
        (initial_state\<lparr>userInput := ''hello''\<rparr>)) =
     [(Bot, Text ''Hello! How can I help you with entitlements today?''),
      (User, Text ''hello''), (Error, Text ''Error: Internal Server Error'')]"
  by (simp add: run_defs)

text \<open>
  C4, as amended. When \<^verbatim>\<open>fetch\<close> rejects, the error object is logged with
  \<^verbatim>\<open>console.error\<close> and the exchange ends with one error entry. In the popup script its
  text is fixed and says nothing of the error; in \<^verbatim>\<open>script.js\<close> its text is the fixed
  sentence followed by the error's message in parentheses.
\<close>

theorem transport_failure_entry:
  assumes "fresh_nodes st" and "trim (userInput st) \<noteq> []"
  shows "sendMessage src eng (Inl e) st =
           Inr (rendered src st [ConsoleError ''Fetch Error:'' (LogError e)] Error
                  (connection_message src e)) \<and>
         connection_message Part_000 e = ''Connection error. Please try again later.'' \<and>
         connection_message Static_script e =
           ''Network error or failed to connect to the server. ('' @ message e @ '')''"
  using assms by (simp add: sendMessage_rejected connection_message_def)

theorem transport_failure_entry_witness:
  "transcript
     (sendMessage Part_000 sample_engine (Inl (JsError ''TypeError'' ''Failed to fetch''))
        (initial_state\<lparr>userInput := ''hello''\<rparr>)) =
     [(Bot, Text ''Hello! How can I help you with entitlements today?''),
      (User, Text ''hello''), (Error, Text ''Connection error. Please try again later.'')] \<and>
   trace
     (rendered Part_000 (initial_state\<lparr>userInput := ''hello''\<rparr>)
        [ConsoleError ''Fetch Error:'' (LogError (JsError ''TypeError'' ''Failed to fetch''))]
        Error ''Connection error. Please try again later.'') =
     [AppendChild \<lparr>node = 1, sender_class = User, content = Text ''hello''\<rparr>,
      SetValue [],
      AppendChild \<lparr>node = 2, sender_class = Bot, content = Dots\<rparr>,
      Fetch \<lparr>url = ''/chat'', http_method = ''POST'',
             headers = [(''Content-Type'', ''application/json'')],
             body = JObject [(''query'', JString ''hello'')]\<rparr>,
      RemoveChild 2,
      ConsoleError ''Fetch Error:'' (LogError (JsError ''TypeError'' ''Failed to fetch'')),
      AppendChild \<lparr>node = 3, sender_class = Error,
                    content = Text ''Connection error. Please try again later.''\<rparr>]"
  using transport_failure_entry
    [where st = "initial_state\<lparr>userInput := ''hello''\<rparr>" and src = Part_000
       and eng = sample_engine and e = "JsError ''TypeError'' ''Failed to fetch''"]
  by (simp add: transcript_def chatbox_rendered rendered_def dispatch_events_def user_entry_def
        thinking_entry_def chat_request_def terminal_entry_def initial_state_def trim_def
        is_ws_def fresh_nodes_def)

text \<open>
  The claim as stated fails in \<^verbatim>\<open>script.js\<close>: the message of the transport error is shown
  to the user.
\<close>

theorem transport_failure_entry_counterexample:
  "transcript
     (sendMessage Static_script sample_engine (Inl (JsError ''TypeError'' ''Failed to fetch''))
        (initial_state\<lparr>userInput := ''hello''\<rparr>)) =
     [(Bot, Text ''Hello! How can I help you with entitlements today?''),
      (User, Text ''hello''),
      (Error, Text ''Network error or failed to connect to the server. (Failed to fetch)'')]"
  by (simp add: run_defs)

text \<open>
  C6. However the network call settles, \<^verbatim>\<open>sendMessage\<close> returns normally and the indicator
  is removed exactly once, before the one entry of the bot or an error that ends the
  exchange is appended. Run on its own, the events of the exchange are exactly: those up
  to the dispatch, the removal of the indicator, \<^verbatim>\<open>console.error\<close> calls, the append of
  that entry. Run among other handlers that leave its indicator alone (another
  \<^verbatim>\<open>sendMessage\<close> at any of its pieces, \<^verbatim>\<open>toggleChat\<close>, typing: lemmas \<open>bystander_begin\<close> to
  \<open>bystander_json_settled\<close>), its events are the same, with exactly the events of those
  handlers in the two places where it awaits: \<open>evs1\<close> is what they log while \<^verbatim>\<open>fetch\<close>
  is awaited, \<open>evs2\<close> what they log while \<^verbatim>\<open>response.json()\<close> is awaited (nothing when
  \<^verbatim>\<open>fetch\<close> rejects). At no point of the exchange are the indicator and the entry that
  ends it both in the chatbox; afterwards the guarded removal changes nothing, where
  \<^verbatim>\<open>removeChild\<close> alone would throw.
\<close>

theorem indicator_removed_before_terminal_entry:
  assumes f: "fresh_nodes st" and m: "trim (userInput st) \<noteq> []"
    and o1: "bystander (node (thinking_entry src st)) others1"
    and o2: "bystander (node (thinking_entry src st)) others2"
  shows "(\<exists>logged sender shown.
            sendMessage src eng outcome st = Inr (rendered src st logged sender shown) \<and>
            sender \<noteq> User \<and> console_only logged \<and>
            trace (rendered src st logged sender shown) =
              trace st @ dispatch_events src st @
              [RemoveChild (node (thinking_entry src st))] @ logged @
              [AppendChild (terminal_entry st sender shown)]) \<and>
         (\<exists>st' evs1 evs2 logged entry.
            sendMessage_among src eng outcome others1 others2 st = Inr st' \<and>
            events_of others1 (dispatched src st) evs1 \<and>
            (case outcome of
               Inl e \<Rightarrow> evs2 = []
             | Inr r \<Rightarrow>
                 events_of others2
                   (without (node (thinking_entry src st)) (others1 (dispatched src st))) evs2) \<and>
            console_only logged \<and>
            trace st' =
              trace st @ dispatch_events src st @ evs1 @
              [RemoveChild (node (thinking_entry src st))] @ evs2 @ logged @
              [AppendChild entry] \<and>
            among_events src st evs1 (evs2 @ logged) entry =
              dispatch_events src st @ evs1 @ [RemoveChild (node (thinking_entry src st))] @
              evs2 @ logged @ [AppendChild entry] \<and>
            RemoveChild (node (thinking_entry src st)) \<notin> set evs1 \<and>
            RemoveChild (node (thinking_entry src st)) \<notin> set evs2 \<and>
            count_list (among_events src st evs1 (evs2 @ logged) entry)
              (RemoveChild (node (thinking_entry src st))) = 1 \<and>
            sender_class entry \<noteq> User \<and>
            (\<forall>k. k \<le> length (among_events src st evs1 (evs2 @ logged) entry) \<longrightarrow>
               \<not> (node (thinking_entry src st) \<in>
                      set (children_after (map node (chatbox st))
                             (take k (among_events src st evs1 (evs2 @ logged) entry))) \<and>
                    node entry \<in>
                      set (children_after (map node (chatbox st))
                             (take k (among_events src st evs1 (evs2 @ logged) entry))))) \<and>
            \<not> contains st' (node (thinking_entry src st)) \<and>
            contains st' (node entry) \<and>
            remove_thinking eng (node (thinking_entry src st)) st' = Inr st' \<and>
            removeChild eng (node (thinking_entry src st)) st' = Inl (not_a_child eng))"
    (is "?alone \<and> ?among")
proof -
  let ?h = "Suc (next_node st)"
  let ?d = "dispatched src st"
  have h: "node (thinking_entry src st) = ?h" by (simp add: thinking_entry_def)
  have alone: ?alone
  proof -
    from sendMessage_renders [OF f m, of src eng outcome]
    obtain logged sender shown
      where "sendMessage src eng outcome st = Inr (rendered src st logged sender shown)"
        and "sender \<noteq> User" and "console_only logged"
      unfolding renders_def by blast
    moreover have "trace (rendered src st logged sender shown) =
                     trace st @ dispatch_events src st @
                     [RemoveChild (node (thinking_entry src st))] @ logged @
                     [AppendChild (terminal_entry st sender shown)]"
      by (simp add: rendered_def h)
    ultimately show ?thesis by blast
  qed
  have fd: "fresh_nodes ?d" by (rule fresh_dispatched [OF f])
  have hd: "?h < next_node ?d" by (simp add: next_node_dispatched)
  from bystanderD [OF o1 [unfolded h] fd hd] obtain evs1
    where s2: "fresh_nodes (others1 ?d)" "next_node ?d \<le> next_node (others1 ?d)"
      "contains (others1 ?d) ?h = contains ?d ?h" "trace (others1 ?d) = trace ?d @ evs1"
      and r1: "RemoveChild ?h \<notin> set evs1"
      and a1: "\<And>e. AppendChild e \<in> set evs1 \<Longrightarrow>
                 next_node ?d \<le> node e \<and> node e < next_node (others1 ?d)"
    by blast
  let ?s2 = "others1 ?d"
  have p1: "events_of others1 ?d evs1" by (simp add: events_of_def s2(4))
  have c2: "contains ?s2 ?h" by (simp add: s2(3) contains_dispatched)
  have cl: "cleared ?h ?s2 = without ?h ?s2" by (rule cleared_present [OF c2])
  let ?s3 = "cleared ?h ?s2"
  have f3: "fresh_nodes ?s3" by (rule fresh_cleared [OF s2(1)])
  have n3: "next_node ?s3 = next_node ?s2" by (rule next_node_cleared)
  have h3: "?h < next_node ?s3" using hd s2(2) by (simp add: n3)
  have c3: "\<not> contains ?s3 ?h" by (rule not_contains_cleared)
  have t3: "trace ?s3 = trace st @ dispatch_events src st @ evs1 @ [RemoveChild ?h]"
    by (simp add: trace_cleared c2 s2(4) trace_dispatched)
  have run: "sendMessage_among src eng outcome others1 others2 st =
               (case fetch_settled src eng ?h outcome ?s2 of
                  Inl e \<Rightarrow> Inl e
                | Inr (st2, None) \<Rightarrow> Inr st2
                | Inr (st2, Some response) \<Rightarrow> json_settled src eng ?h response (others2 st2))"
    by (simp add: sendMessage_among_def begin_dispatch [OF m])
  have finish: ?among
    if res: "sendMessage_among src eng outcome others1 others2 st =
               Inr (appended s logged sender shown)"
      and sn: "sender \<noteq> User" and cs: "\<not> contains s ?h"
      and ns: "next_node ?s2 \<le> next_node s"
      and ts: "trace s = trace ?s3 @ evs2" and rs: "RemoveChild ?h \<notin> set evs2"
      and as: "\<And>e. AppendChild e \<in> set evs2 \<Longrightarrow>
                 next_node ?s2 \<le> node e \<and> node e < next_node s"
      and lg: "console_only logged"
      and p2: "case outcome of
                 Inl e \<Rightarrow> evs2 = []
               | Inr r \<Rightarrow> events_of others2 (without ?h ?s2) evs2"
    for s logged sender shown evs2
  proof -
    let ?entry = "\<lparr>node = next_node s, sender_class = sender, content = Text shown\<rparr>"
    let ?st' = "appended s logged sender shown"
    have tr: "trace ?st' =
                trace st @ dispatch_events src st @ evs1 @ [RemoveChild ?h] @ evs2 @ logged @
                [AppendChild ?entry]"
      by (simp add: trace_appended ts t3)
    have r2: "RemoveChild ?h \<notin> set (evs2 @ logged)"
      using rs console_only_no_events [OF lg] by simp
    have a1': "\<forall>e. AppendChild e \<in> set evs1 \<longrightarrow> node e < node ?entry"
      using a1 ns by fastforce
    have a2': "\<forall>e. AppendChild e \<in> set (evs2 @ logged) \<longrightarrow>
                 node e < node ?entry \<and> node e \<noteq> ?h"
      using as console_only_no_events [OF lg] hd s2(2) by fastforce
    have tn: "next_node st + 2 \<le> node ?entry"
      using ns s2(2) by (simp add: next_node_dispatched)
    note core = among_events_once_and_apart [OF f r1 a1' r2 a2' tn, of src]
    have gone: "\<not> contains ?st' ?h"
      using cs tn by (simp add: contains_appended)
    have there: "contains ?st' (node ?entry)" by (simp add: contains_appended)
    note noop = removal_is_noop_when_gone [OF gone, of eng]
    have shape: "among_events src st evs1 (evs2 @ logged) ?entry =
                   dispatch_events src st @ evs1 @ [RemoveChild ?h] @ evs2 @ logged @
                   [AppendChild ?entry]"
      by (simp add: among_events_def)
    have sc: "sender_class ?entry \<noteq> User" using sn by simp
    show ?thesis
      unfolding h
      using res p1 p2 lg tr shape r1 rs core(1) sc core(2) gone there noop by blast
  qed
  have among: ?among
  proof (cases outcome)
    case (Inl e)
    have "sendMessage_among src eng outcome others1 others2 st =
            Inr (appended ?s3 [ConsoleError ''Fetch Error:'' (LogError e)] Error
                   (connection_message src e))"
      by (simp only: run) (simp add: Inl fetch_settled_rejected_any)
    then show ?thesis
      by (rule finish [where ?evs2.0 = "[]"])
         (simp_all add: c3 n3 console_only_def Inl)
  next
    case (Inr r)
    from bystanderD [OF o2 [unfolded h] f3 h3] obtain evs2
      where s4: "fresh_nodes (others2 ?s3)" "next_node ?s3 \<le> next_node (others2 ?s3)"
        "contains (others2 ?s3) ?h = contains ?s3 ?h" "trace (others2 ?s3) = trace ?s3 @ evs2"
        and r2: "RemoveChild ?h \<notin> set evs2"
        and a2: "\<And>e. AppendChild e \<in> set evs2 \<Longrightarrow>
                   next_node ?s3 \<le> node e \<and> node e < next_node (others2 ?s3)"
      by blast
    have c4: "\<not> contains (others2 ?s3) ?h" by (simp add: s4(3) c3)
    from json_settled_appends [OF c4, of src eng r]
    obtain logged sender shown
      where j: "json_settled src eng ?h r (others2 ?s3) =
                  Inr (appended (others2 ?s3) logged sender shown)"
        and sn: "sender \<noteq> User" and lg: "console_only logged"
      unfolding appends_def by blast
    have "sendMessage_among src eng outcome others1 others2 st =
            Inr (appended (others2 ?s3) logged sender shown)"
      by (simp only: run) (simp add: Inr fetch_settled_response_any j)
    then show ?thesis
    proof (rule finish [where ?evs2.0 = evs2])
      show "sender \<noteq> User" by (rule sn)
      show "\<not> contains (others2 ?s3) ?h" by (rule c4)
      show "next_node ?s2 \<le> next_node (others2 ?s3)" using s4(2) by (simp add: n3)
      show "trace (others2 ?s3) = trace ?s3 @ evs2" by (rule s4(4))
      show "RemoveChild ?h \<notin> set evs2" by (rule r2)
      show "next_node ?s2 \<le> node e \<and> node e < next_node (others2 ?s3)"
        if "AppendChild e \<in> set evs2" for e
        using a2 [OF that] by (simp add: n3)
      show "console_only logged" by (rule lg)
      show "case outcome of
              Inl e \<Rightarrow> evs2 = []
            | Inr r \<Rightarrow> events_of others2 (without ?h ?s2) evs2"
        using s4(4) by (simp add: Inr events_of_def cl)
    qed
  qed
  from alone among show ?thesis ..
qed

theorem indicator_removed_before_terminal_entry_witness:
  "(\<exists>st' evs1 evs2 logged entry.
      sendMessage_among Part_000 sample_engine
        (Inr \<lparr>status = 200, statusText = ''OK'',
              json_body = Inr (JObject [(''reply'', JString ''Hi there'')])\<rparr>)
        (\<lambda>s. fst (sendMessage_begin Part_000 (s\<lparr>userInput := ''again''\<rparr>))) toggleChat
        (initial_state\<lparr>userInput := ''hello''\<rparr>) = Inr st' \<and>
      events_of (\<lambda>s. fst (sendMessage_begin Part_000 (s\<lparr>userInput := ''again''\<rparr>)))
        (dispatched Part_000 (initial_state\<lparr>userInput := ''hello''\<rparr>)) evs1 \<and>
      events_of toggleChat
        (without 2
           (fst (sendMessage_begin Part_000
                   ((dispatched Part_000 (initial_state\<lparr>userInput := ''hello''\<rparr>))
                      \<lparr>userInput := ''again''\<rparr>)))) evs2 \<and>
      console_only logged \<and>
      trace st' =
        trace (initial_state\<lparr>userInput := ''hello''\<rparr>) @
        dispatch_events Part_000 (initial_state\<lparr>userInput := ''hello''\<rparr>) @ evs1 @
        [RemoveChild 2] @ evs2 @ logged @ [AppendChild entry] \<and>
      count_list
        (among_events Part_000 (initial_state\<lparr>userInput := ''hello''\<rparr>) evs1 (evs2 @ logged)
           entry)
        (RemoveChild 2) = 1 \<and>
      sender_class entry \<noteq> User \<and> \<not> contains st' 2 \<and> contains st' (node entry)) \<and>
   map_sum message trace
     (sendMessage_among Part_000 sample_engine
        (Inr \<lparr>status = 200, statusText = ''OK'',
              json_body = Inr (JObject [(''reply'', JString ''Hi there'')])\<rparr>)
        (\<lambda>s. fst (sendMessage_begin Part_000 (s\<lparr>userInput := ''again''\<rparr>))) toggleChat
        (initial_state\<lparr>userInput := ''hello''\<rparr>)) =
     Inr [AppendChild \<lparr>node = 1, sender_class = User, content = Text ''hello''\<rparr>,
          SetValue [],
          AppendChild \<lparr>node = 2, sender_class = Bot, content = Dots\<rparr>,
          Fetch \<lparr>url = ''/chat'', http_method = ''POST'',
                 headers = [(''Content-Type'', ''application/json'')],
                 body = JObject [(''query'', JString ''hello'')]\<rparr>,
          AppendChild \<lparr>node = 3, sender_class = User, content = Text ''again''\<rparr>,
          SetValue [],
          AppendChild \<lparr>node = 4, sender_class = Bot, content = Dots\<rparr>,
          Fetch \<lparr>url = ''/chat'', http_method = ''POST'',
                 headers = [(''Content-Type'', ''application/json'')],
                 body = JObject [(''query'', JString ''again'')]\<rparr>,
          RemoveChild 2,
          FocusAfter 100,
          AppendChild \<lparr>node = 5, sender_class = Bot, content = Text ''Hi there''\<rparr>] \<and>
   transcript
     (sendMessage_among Part_000 sample_engine
        (Inr \<lparr>status = 200, statusText = ''OK'',
              json_body = Inr (JObject [(''reply'', JString ''Hi there'')])\<rparr>)
        (\<lambda>s. fst (sendMessage_begin Part_000 (s\<lparr>userInput := ''again''\<rparr>))) toggleChat
        (initial_state\<lparr>userInput := ''hello''\<rparr>)) =
     [(Bot, Text ''Hello! How can I help you with entitlements today?''),
      (User, Text ''hello''), (User, Text ''again''), (Bot, Dots), (Bot, Text ''Hi there'')]"
  (is "?among \<and> ?events \<and> ?read")
proof -
  have n: "node (thinking_entry Part_000 (initial_state\<lparr>userInput := ''hello''\<rparr>)) = 2"
    by (simp add: thinking_entry_def initial_state_def)
  have o1: "bystander 2 (\<lambda>s. fst (sendMessage_begin Part_000 (s\<lparr>userInput := ''again''\<rparr>)))"
    by (rule bystander_then [OF bystander_typing bystander_begin])
  have o2: "bystander 2 toggleChat" by (rule bystander_toggleChat)
  from indicator_removed_before_terminal_entry
         [OF example_state example_message o1 [folded n] o2 [folded n],
          of sample_engine
             "Inr \<lparr>status = 200, statusText = ''OK'',
                   json_body = Inr (JObject [(''reply'', JString ''Hi there'')])\<rparr>"]
  have among: ?among
    unfolding n sum.case by blast
  have events: ?events
    by (simp add: sendMessage_among_def toggleChat_def classList_remove_def run_defs)
  have "?read"
    by (simp add: sendMessage_among_def toggleChat_def classList_remove_def run_defs)
  with among events show ?thesis by blast
qed

text \<open>
  C9, as amended. With an OK status and a body that is an object with a reply: the empty
  string ends with the error entry about an empty or invalid response; a truthy reply
  that has a text (every non-empty string, every number but zero, \<^verbatim>\<open>true\<close>, and the
  arrays and objects whose conversion does not throw) ends with a bot entry showing that
  text; a truthy reply whose conversion throws ends in the \<^verbatim>\<open>catch\<close> block, with an
  error entry.
\<close>

theorem reply_truthiness:
  assumes "fresh_nodes st" and "trim (userInput st) \<noteq> []" and "ok r"
    and "json_body r = Inr (JObject members)" and "map_of (rev members) ''reply'' = Some v"
  shows "(v = JString [] \<longrightarrow>
            sendMessage src eng (Inr r) st =
              Inr (rendered src st [] Error (invalid_response_message src))) \<and>
         (\<forall>s. truthy v \<and> to_text eng v = Inr s \<longrightarrow>
            sendMessage src eng (Inr r) st = Inr (rendered src st [] Bot s)) \<and>
         (\<forall>x. v = JNumber x \<and> x \<noteq> 0 \<longrightarrow>
            sendMessage src eng (Inr r) st = Inr (rendered src st [] Bot (number_text eng x))) \<and>
         (\<forall>e. truthy v \<and> to_text eng v = Inl e \<longrightarrow>
            sendMessage src eng (Inr r) st =
              Inr (rendered src st [ConsoleError ''Fetch Error:'' (LogError e)] Error
                     (connection_message src e)))"
proof -
  have run: "sendMessage src eng (Inr r) st =
               json_settled src eng (Suc (next_node st)) r (removed src st [])"
    by (simp add: sendMessage_response assms(1,2))
  have p: "get_prop eng (JObject members) ''reply'' = Inr (Some v)"
    by (simp add: assms(5))
  have bot: "json_settled src eng (Suc (next_node st)) r (removed src st []) =
               Inr (rendered src st [] Bot s)" if "truthy v" "to_text eng v = Inr s" for s
    by (rule json_settled_reply [OF assms(1,3,4) _ p that]) simp
  have thrown: "json_settled src eng (Suc (next_node st)) r (removed src st []) =
                  Inr (rendered src st [ConsoleError ''Fetch Error:'' (LogError e)] Error
                         (connection_message src e))" if "truthy v" "to_text eng v = Inl e" for e
    by (rule json_settled_reply_thrown [OF assms(1,3,4) _ p that]) simp
  have empty: "json_settled src eng (Suc (next_node st)) r (removed src st []) =
                 Inr (rendered src st [] Error (invalid_response_message src))"
    if "v = JString []"
    by (rule json_settled_invalid [OF assms(1,3,4)]) (simp add: assms(5) that truthy_opt_def)
  show ?thesis
    unfolding run using bot thrown empty by simp
qed

theorem reply_truthiness_witness:
  "transcript
     (sendMessage Part_000 sample_engine
        (Inr \<lparr>status = 200, statusText = ''OK'',
              json_body = Inr (JObject [(''reply'', JString [])])\<rparr>)
        (initial_state\<lparr>userInput := ''hello''\<rparr>)) =
     [(Bot, Text ''Hello! How can I help you with entitlements today?''),
      (User, Text ''hello''), (Error, Text ''Received an empty or invalid response.'')] \<and>
   transcript
     (sendMessage Part_000 sample_engine
        (Inr \<lparr>status = 200, statusText = ''OK'',
              json_body = Inr (JObject [(''reply'', JNumber 42)])\<rparr>)
        (initial_state\<lparr>userInput := ''hello''\<rparr>)) =
     [(Bot, Text ''Hello! How can I help you with entitlements today?''),
      (User, Text ''hello''), (Bot, Text ''42'')]"
  using reply_truthiness
    [where st = "initial_state\<lparr>userInput := ''hello''\<rparr>" and src = Part_000
       and eng = sample_engine and members = "[(''reply'', JString [])]"
       and v = "JString []"
       and r = "\<lparr>status = 200, statusText = ''OK'',
                 json_body = Inr (JObject [(''reply'', JString [])])\<rparr>"]
    reply_truthiness
    [where st = "initial_state\<lparr>userInput := ''hello''\<rparr>" and src = Part_000
       and eng = sample_engine and members = "[(''reply'', JNumber 42)]"
       and v = "JNumber 42"
       and r = "\<lparr>status = 200, statusText = ''OK'',
                 json_body = Inr (JObject [(''reply'', JNumber 42)])\<rparr>"]
  by (simp add: ok_def transcript_def chatbox_rendered user_entry_def terminal_entry_def
        initial_state_def trim_def is_ws_def invalid_response_message_def fresh_nodes_def
        sample_engine_def decimal.simps)

text \<open>
  The claim as stated fails for a truthy reply without a text: the object
  \<^verbatim>\<open>{"toString": null}\<close> hides the inherited \<^verbatim>\<open>toString\<close>, the \<^verbatim>\<open>textContent\<close> setter
  throws on it, and the entry is an error entry.
\<close>

theorem reply_truthiness_counterexample:
  "truthy (JObject [(''toString'', JNull)]) \<and>
   transcript
     (sendMessage Part_000 sample_engine
        (Inr \<lparr>status = 200, statusText = ''OK'',
              json_body = Inr (JObject [(''reply'', JObject [(''toString'', JNull)])])\<rparr>)
        (initial_state\<lparr>userInput := ''hello''\<rparr>)) =
     [(Bot, Text ''Hello! How can I help you with entitlements today?''),
      (User, Text ''hello''), (Error, Text ''Connection error. Please try again later.'')]"
  by (simp add: run_defs)

end
